theory Spec2Isabelle
  imports Complex_Main
begin

section \<open>JavaScript numbers\<close>

text \<open>
  The widget computes with JavaScript numbers. Every value it stores in its state is an
  integer (indexes of days, minutes of the day, step sizes), modelled as \<open>int\<close>; the
  quotients and ratios in between are modelled as exact rationals. \<open>Math.round\<close> rounds
  to the nearest integer and a tie towards plus infinity; \<open>%\<close> is the remainder that
  truncates towards zero and takes the sign of the dividend.
\<close>

definition Math_round :: "rat \<Rightarrow> int" where
  "Math_round x = \<lfloor>x + 1 / 2\<rfloor>"

definition Math_floor :: "rat \<Rightarrow> int" where
  "Math_floor x = \<lfloor>x\<rfloor>"

definition Math_ceil :: "rat \<Rightarrow> int" where
  "Math_ceil x = \<lceil>x\<rceil>"

definition Math_trunc :: "rat \<Rightarrow> int" where
  "Math_trunc x = (if 0 \<le> x then \<lfloor>x\<rfloor> else \<lceil>x\<rceil>)"

definition js_rem :: "int \<Rightarrow> int \<Rightarrow> int" where
  "js_rem x y = sgn x * (\<bar>x\<bar> mod \<bar>y\<bar>)"

definition js_rem_num :: "rat \<Rightarrow> rat \<Rightarrow> rat" where
  "js_rem_num x y = x - y * of_int (Math_trunc (x / y))"

section \<open>The state of the widget\<close>

text \<open>
  A date-only \<open>Date\<close> of the host is modelled by the number of its local calendar day,
  counted from 1970-01-01. The fields \<open>minDate\<close> and \<open>maxDate\<close> are \<open>null\<close> only
  before \<open>connectedCallback\<close> has run \<open>#initDateBounds\<close>; the record is the state
  from then on.
\<close>

type_synonym date = int

record state =
  minDate :: date
  maxDate :: date
  dateMin :: int
  dateMax :: int
  dateStart :: int
  dateEnd :: int
  dateStepDays :: int
  timeMin :: int
  timeMax :: int
  timeStart :: int
  timeEnd :: int
  timeStep :: int
  timeZone :: string

section \<open>Helpers: clamp and snap\<close>

definition snapToStep :: "int \<Rightarrow> int \<Rightarrow> int" where
  "snapToStep v step = Math_round (of_int v / of_int step) * step"

definition clamp :: "int \<Rightarrow> int \<Rightarrow> int \<Rightarrow> int" where
  "clamp lo hi v = max lo (min hi v)"

definition clampAndSyncDates :: "state \<Rightarrow> state" where
  "clampAndSyncDates S =
     (let s = snapToStep (clamp (dateMin S) (dateMax S) (dateStart S)) (dateStepDays S);
          e = snapToStep (clamp (dateMin S) (dateMax S) (dateEnd S)) (dateStepDays S)
      in if s > e then S\<lparr>dateStart := e, dateEnd := s\<rparr>
         else S\<lparr>dateStart := s, dateEnd := e\<rparr>)"

definition clampAndSyncTimes :: "state \<Rightarrow> state" where
  "clampAndSyncTimes S =
     S\<lparr>timeStart := snapToStep (clamp (timeMin S) (timeMax S) (timeStart S)) (timeStep S),
       timeEnd := snapToStep (clamp (timeMin S) (timeMax S) (timeEnd S)) (timeStep S)\<rparr>"

section \<open>Tick planning\<close>

text \<open>
  The quotients of \<open>#chooseDateTickStep\<close> are compared exactly. In doubles two candidates
  that tie exactly (for 280 days: 30 and 60) can be told apart by a rounding error, and the
  loop may then keep the later one, which minimises as well.
\<close>

definition candidates :: "int list" where
  "candidates = [1, 2, 5, 7, 14, 30, 60, 90, 120, 180, 365]"

text \<open>The \<open>for\<close> loop of \<open>#chooseDateTickStep\<close> over the candidates, carrying
  \<open>best\<close> and \<open>bestDiff\<close>.\<close>

fun tick_loop :: "rat \<Rightarrow> rat \<Rightarrow> int list \<Rightarrow> int \<times> rat \<Rightarrow> int \<times> rat" where
  "tick_loop tot target [] (best, bestDiff) = (best, bestDiff)"
| "tick_loop tot target (c # cs) (best, bestDiff) =
     (let diff = \<bar>tot / of_int c - target\<bar>
      in if diff < bestDiff then tick_loop tot target cs (c, diff)
         else tick_loop tot target cs (best, bestDiff))"

definition chooseDateTickStep :: "int \<Rightarrow> int \<Rightarrow> int" where
  "chooseDateTickStep totalDays target =
     fst (tick_loop (of_int totalDays) (of_int target) candidates
            (candidates ! 0, \<bar>of_int totalDays / of_int (candidates ! 0) - of_int target\<bar>))"

section \<open>The public setters\<close>

definition state0 :: state where
  "state0 = \<lparr>minDate = 0, maxDate = 0, dateMin = 0, dateMax = 0, dateStart = 0, dateEnd = 0,
     dateStepDays = 1, timeMin = 0, timeMax = 24 * 60 - 1, timeStart = 22 * 60, timeEnd = 6 * 60,
     timeStep = 15, timeZone = ''UTC''\<rparr>"

definition crossesMidnight :: "state \<Rightarrow> bool" where
  "crossesMidnight S = (timeEnd S < timeStart S)"

text \<open>
  The arguments of the setter of \<open>timeRange\<close> are finite numbers. \<open>NaN\<close>, which an
  absent field gives as well, is outside the model: \<open>Math.round\<close> and \<open>#clamp\<close> let it
  through, the state stores it and the renderer throws.
\<close>

definition set_timeRange :: "rat \<Rightarrow> rat \<Rightarrow> state \<Rightarrow> state" where
  "set_timeRange startMinutes endMinutes S =
     (let s = clamp 0 1439 (Math_round startMinutes);
          e = clamp 0 1439 (Math_round endMinutes)
      in clampAndSyncTimes (S\<lparr>timeStart := s, timeEnd := e\<rparr>))"

section \<open>Arithmetic in double precision\<close>

text \<open>
  Pixel coordinates, the ratios made of them and the products of such ratios need not be
  integers, and the host computes with them in double precision: every operation gives the
  double nearest to its exact result, which is a rational number again. The model takes
  these operations as parameters, so that what is proved of a handler holds whatever the
  operations round to: \<open>fadd\<close>, \<open>fsub\<close>, \<open>fmul\<close> and \<open>fdiv\<close> for \<open>+\<close>, \<open>-\<close>,
  \<open>*\<close> and \<open>/\<close>, and \<open>hypot_gt dx dy t\<close> for \<open>Math.hypot(dx, dy) > t\<close>.
  \<open>Math.round\<close>, \<open>Math.floor\<close>, \<open>Math.ceil\<close>, \<open>Math.min\<close>, \<open>Math.max\<close> and
  \<open>%\<close> are exact on every double. Sums and differences of integers, halves of integers
  and the rounded, floored or ceiled quotient of two integers are computed exactly, as
  doubles do for all integers below \<open>2^52\<close>.

  \<open>exact_ops\<close> are the operations without rounding; they serve to evaluate a handler
  at inputs where the doubles round to the same integers.
\<close>

record float_ops =
  fadd :: "rat \<Rightarrow> rat \<Rightarrow> rat"
  fsub :: "rat \<Rightarrow> rat \<Rightarrow> rat"
  fmul :: "rat \<Rightarrow> rat \<Rightarrow> rat"
  fdiv :: "rat \<Rightarrow> rat \<Rightarrow> rat"
  hypot_gt :: "rat \<Rightarrow> rat \<Rightarrow> rat \<Rightarrow> bool"

definition exact_ops :: float_ops where
  "exact_ops = \<lparr>fadd = (\<lambda>x y. x + y), fsub = (\<lambda>x y. x - y), fmul = (\<lambda>x y. x * y),
                 fdiv = (\<lambda>x y. x / y), hypot_gt = (\<lambda>dx dy t. t * t < dx * dx + dy * dy)\<rparr>"

section \<open>Gestures on a track\<close>

definition wrap :: "int \<Rightarrow> int" where
  "wrap v = js_rem (js_rem v 1440 + 1440) 1440"

record snapshot =
  init_a :: int
  init_b :: int
  init_min :: int
  init_max :: int
  init_step :: int
  init_span :: int

record gesture =
  isDate :: bool
  rect_width :: rat
  downX :: rat
  downY :: rat
  dragged :: bool
  init :: snapshot

definition CLICK_PX_THRESHOLD :: rat where
  "CLICK_PX_THRESHOLD = 6"

definition onPointerDown :: "bool \<Rightarrow> state \<Rightarrow> int \<Rightarrow> rat \<Rightarrow> rat \<Rightarrow> rat \<Rightarrow> gesture option" where
  "onPointerDown isD S button width clientX clientY =
     (if button = 0 then
        Some \<lparr>isDate = isD, rect_width = width, downX = clientX, downY = clientY,
              dragged = False,
              init = (if isD
                then \<lparr>init_a = dateStart S, init_b = dateEnd S, init_min = dateMin S,
                      init_max = dateMax S, init_step = dateStepDays S,
                      init_span = dateMax S - dateMin S\<rparr>
                else \<lparr>init_a = timeStart S, init_b = timeEnd S, init_min = timeMin S,
                      init_max = timeMax S, init_step = timeStep S,
                      init_span = timeMax S - timeMin S\<rparr>)\<rparr>
      else None)"

definition onPointerMove ::
  "float_ops \<Rightarrow> gesture \<Rightarrow> state \<Rightarrow> rat \<Rightarrow> rat \<Rightarrow> gesture \<times> state" where
  "onPointerMove F G S clientX clientY =
     (let dx = fsub F clientX (downX G); dy = fsub F clientY (downY G);
          G' = G\<lparr>dragged := (if dragged G then True
                               else hypot_gt F dx dy CLICK_PX_THRESHOLD)\<rparr>
      in (G',
          if dragged G' then
            (let ratio = (if rect_width G = 0 then 0 else fdiv F dx (rect_width G));
                 I = init G
             in if isDate G then
                  (let shift = Math_round (fmul F ratio (of_int (init_span I)));
                       shift = Math_round (of_int shift / of_int (init_step I)) * init_step I;
                       minShift = init_min I - init_a I;
                       maxShift = init_max I - init_b I;
                       minShiftStep = Math_ceil (of_int minShift / of_int (init_step I)) * init_step I;
                       maxShiftStep = Math_floor (of_int maxShift / of_int (init_step I)) * init_step I;
                       shift = max minShiftStep (min maxShiftStep shift)
                   in S\<lparr>dateStart := init_a I + shift, dateEnd := init_b I + shift\<rparr>)
                else
                  (let shift = Math_round (fmul F ratio (of_int (init_span I + 1)));
                       shift = Math_round (of_int shift / of_int (init_step I)) * init_step I
                   in S\<lparr>timeStart := wrap (init_a I + shift),
                         timeEnd := wrap (init_b I + shift)\<rparr>))
          else S))"

definition recenterDateAt :: "float_ops \<Rightarrow> rat \<Rightarrow> state \<Rightarrow> state" where
  "recenterDateAt F ratio S =
     (let r = max 0 (min 1 ratio);
          span = dateMax S - dateMin S;
          currentCenter = (of_int (dateStart S + dateEnd S) :: rat) / 2;
          targetCenter = fadd F (of_int (dateMin S)) (fmul F r (of_int span));
          shift = fsub F targetCenter currentCenter;
          shift = Math_round (fdiv F shift (of_int (dateStepDays S))) * dateStepDays S;
          minShift = dateMin S - dateStart S;
          maxShift = dateMax S - dateEnd S;
          minShiftStep = Math_ceil (of_int minShift / of_int (dateStepDays S)) * dateStepDays S;
          maxShiftStep = Math_floor (of_int maxShift / of_int (dateStepDays S)) * dateStepDays S;
          shift = max minShiftStep (min maxShiftStep shift)
      in S\<lparr>dateStart := dateStart S + shift, dateEnd := dateEnd S + shift\<rparr>)"

definition recenterTimeAt :: "float_ops \<Rightarrow> rat \<Rightarrow> state \<Rightarrow> state" where
  "recenterTimeAt F ratio S =
     (let r = max 0 (min 1 ratio);
          width = (if timeEnd S \<ge> timeStart S then timeEnd S - timeStart S
                   else 1440 - timeStart S + timeEnd S);
          center = js_rem_num (of_int (timeStart S) + of_int width / 2) 1440;
          center = js_rem_num (center + 1440) 1440;
          target = Math_round (fmul F r (1440 - 1));
          target = js_rem (js_rem target 1440 + 1440) 1440;
          shift = of_int target - center;
          shift = Math_round (fdiv F shift (of_int (timeStep S))) * timeStep S
      in S\<lparr>timeStart := wrap (timeStart S + shift), timeEnd := wrap (timeEnd S + shift)\<rparr>)"

text \<open>\<open>rectLeft\<close>, \<open>rectRight\<close> and \<open>rectWidth\<close> are the fields of the rectangle that
  \<open>getBoundingClientRect\<close> gives at pointer-up.\<close>

definition onPointerUp ::
  "float_ops \<Rightarrow> gesture \<Rightarrow> state \<Rightarrow> rat \<Rightarrow> rat \<Rightarrow> rat \<Rightarrow> rat \<Rightarrow> state" where
  "onPointerUp F G S rectLeft rectRight rectWidth clientX =
     (if dragged G then S
      else
        (let clickRatio =
               (if rectWidth = 0 then 1 / 2
                else fdiv F (fsub F (min rectRight (max rectLeft clientX)) rectLeft) rectWidth)
         in if isDate G then recenterDateAt F clickRatio S else recenterTimeAt F clickRatio S))"

text \<open>
  Names for the local values of the drag handler, used to state its properties:
  \<open>scaled_shift F G clientX n\<close> is \<open>Math.round(ratio * n)\<close>, the displacement of the
  pointer as a whole number of days or minutes, \<open>rounded_shift I k\<close> is \<open>k\<close> rounded to
  the step, and \<open>minShiftStep\<close> and \<open>maxShiftStep\<close> are the limits of the date drag.
\<close>

definition drag_ratio :: "float_ops \<Rightarrow> gesture \<Rightarrow> rat \<Rightarrow> rat" where
  "drag_ratio F G clientX =
     (if rect_width G = 0 then 0 else fdiv F (fsub F clientX (downX G)) (rect_width G))"

definition scaled_shift :: "float_ops \<Rightarrow> gesture \<Rightarrow> rat \<Rightarrow> int \<Rightarrow> int" where
  "scaled_shift F G clientX n = Math_round (fmul F (drag_ratio F G clientX) (of_int n))"

definition rounded_shift :: "snapshot \<Rightarrow> int \<Rightarrow> int" where
  "rounded_shift I k = Math_round (of_int k / of_int (init_step I)) * init_step I"

definition minShiftStep :: "snapshot \<Rightarrow> int" where
  "minShiftStep I = Math_ceil (of_int (init_min I - init_a I) / of_int (init_step I)) * init_step I"

definition maxShiftStep :: "snapshot \<Rightarrow> int" where
  "maxShiftStep I = Math_floor (of_int (init_max I - init_b I) / of_int (init_step I)) * init_step I"

section \<open>The calendar of the host\<close>

text \<open>
  The methods of \<open>Date\<close> that the widget calls, on date-only values. Days are counted
  from 1970-01-01 in the proleptic Gregorian calendar, as ECMAScript does:
  \<open>DayFromYear\<close> is the day number of 1 January, \<open>MakeDay\<close> lets the month and the
  day of the month overflow into the neighbouring months and years, and the constructor
  \<open>new Date(y, m, d)\<close> reads a year from 0 to 99 as 1900 + y.

  The host is taken to have every calendar day: a zone that skipped a whole local day (as
  Pacific/Apia did with 2011-12-30) is outside the model, since there \<open>setDate\<close> lands
  on the day after.
\<close>

definition DayFromYear :: "int \<Rightarrow> int" where
  "DayFromYear y = 365 * (y - 1970) + (y - 1969) div 4 - (y - 1901) div 100 + (y - 1601) div 400"

definition InLeapYear :: "int \<Rightarrow> bool" where
  "InLeapYear y = (if y mod 4 = 0 then (if y mod 100 = 0 then y mod 400 = 0 else True) else False)"

definition YearFromDay :: "int \<Rightarrow> int" where
  "YearFromDay t =
     (let y = 1970 + (400 * t) div 146097
      in if DayFromYear (y + 1) \<le> t then y + 1
         else if t < DayFromYear y then y - 1
         else y)"

definition leapDays :: "bool \<Rightarrow> int" where
  "leapDays leap = (if leap then 1 else 0)"

definition monthStart :: "bool \<Rightarrow> int \<Rightarrow> int" where
  "monthStart leap m =
     (if m = 0 then 0 else if m = 1 then 31
      else if m = 2 then 59 + leapDays leap else if m = 3 then 90 + leapDays leap
      else if m = 4 then 120 + leapDays leap else if m = 5 then 151 + leapDays leap
      else if m = 6 then 181 + leapDays leap else if m = 7 then 212 + leapDays leap
      else if m = 8 then 243 + leapDays leap else if m = 9 then 273 + leapDays leap
      else if m = 10 then 304 + leapDays leap else 334 + leapDays leap)"

definition MonthFromDay :: "bool \<Rightarrow> int \<Rightarrow> int" where
  "MonthFromDay leap dayInYear =
     (if dayInYear < 31 then 0 else if dayInYear < 59 + leapDays leap then 1
      else if dayInYear < 90 + leapDays leap then 2 else if dayInYear < 120 + leapDays leap then 3
      else if dayInYear < 151 + leapDays leap then 4 else if dayInYear < 181 + leapDays leap then 5
      else if dayInYear < 212 + leapDays leap then 6 else if dayInYear < 243 + leapDays leap then 7
      else if dayInYear < 273 + leapDays leap then 8 else if dayInYear < 304 + leapDays leap then 9
      else if dayInYear < 334 + leapDays leap then 10 else 11)"

definition MakeDay :: "int \<Rightarrow> int \<Rightarrow> int \<Rightarrow> int" where
  "MakeDay year month dt =
     (let ym = year + month div 12; mn = month mod 12
      in DayFromYear ym + monthStart (InLeapYear ym) mn + dt - 1)"

definition fullYear :: "int \<Rightarrow> int" where
  "fullYear y = (if 0 \<le> y then (if y \<le> 99 then 1900 + y else y) else y)"

definition getFullYear :: "date \<Rightarrow> int" where
  "getFullYear t = YearFromDay t"

definition getMonth :: "date \<Rightarrow> int" where
  "getMonth t = MonthFromDay (InLeapYear (YearFromDay t)) (t - DayFromYear (YearFromDay t))"

definition getDate :: "date \<Rightarrow> int" where
  "getDate t = t - DayFromYear (YearFromDay t)
                 - monthStart (InLeapYear (YearFromDay t)) (getMonth t) + 1"

definition new_Date :: "int \<Rightarrow> int \<Rightarrow> int \<Rightarrow> date" where
  "new_Date y m d = MakeDay (fullYear y) m d"

definition setDate :: "date \<Rightarrow> int \<Rightarrow> date" where
  "setDate t n = MakeDay (getFullYear t) (getMonth t) n"

section \<open>The platform\<close>

text \<open>
  What the widget takes from its host, as parameters of the model:
  \<^item> \<open>formatToParts tz ms\<close>: the wall-clock fields of the instant \<open>ms\<close> in the zone
    \<open>tz\<close>, as \<open>Intl.DateTimeFormat('en-US', {timeZone: tz, ...}).formatToParts\<close> gives
    them, read as numbers; the formatter throws a \<open>RangeError\<close> for an identifier it does
    not know;
  \<^item> \<open>hostOffset t\<close>: the offset of the host's own zone from UTC, in milliseconds, at the
    local midnight of the day \<open>t\<close>, so that \<open>getTime\<close> of a date-only \<open>Date\<close> is the
    instant of that midnight;
  \<^item> \<open>nowDay\<close>: the local day of the clock;
  \<^item> \<open>fractionString\<close>: how the host prints a number that is not an integer.
\<close>

datatype error = RangeError

record parts =
  p_year :: int
  p_month :: int
  p_day :: int
  p_hour :: int
  p_minute :: int
  p_second :: int

record platform =
  formatToParts :: "string \<Rightarrow> int \<Rightarrow> error + parts"
  hostOffset :: "date \<Rightarrow> int"
  nowDay :: date
  fractionString :: "rat \<Rightarrow> string"

definition MS :: int where
  "MS = 86400000"

definition getTime :: "platform \<Rightarrow> date \<Rightarrow> int" where
  "getTime P t = t * MS - hostOffset P t"

definition todayLocal :: "platform \<Rightarrow> date" where
  "todayLocal P = new_Date (getFullYear (nowDay P)) (getMonth (nowDay P)) (getDate (nowDay P))"

section \<open>Dates and indexes\<close>

text \<open>
  \<open>#coerceDateOnly\<close> takes a \<open>Date\<close>, a string or anything else (here: \<open>null\<close>, the
  value of an absent attribute). The regular expression \<open>/^\d{4}-\d{2}-\d{2}$/\<close> checks
  the shape of the string only; the three numbers go to \<open>new Date(y, m - 1, d)\<close> as they
  are.
\<close>

datatype jsvalue = Null | Str string | DateObj date

definition isDigit :: "char \<Rightarrow> bool" where
  "isDigit c = (c \<in> set ''0123456789'')"

definition Number :: "string \<Rightarrow> int" where
  "Number ds = foldl (\<lambda>n c. 10 * n + (of_char c - 48)) 0 ds"

definition matchesDateOnly :: "string \<Rightarrow> bool" where
  "matchesDateOnly s =
     (length s = 10 \<and> list_all isDigit (take 4 s) \<and> s ! 4 = CHR ''-'' \<and>
      list_all isDigit (take 2 (drop 5 s)) \<and> s ! 7 = CHR ''-'' \<and>
      list_all isDigit (drop 8 s))"

fun coerceDateOnly :: "jsvalue \<Rightarrow> date option" where
  "coerceDateOnly (DateObj v) = Some (new_Date (getFullYear v) (getMonth v) (getDate v))"
| "coerceDateOnly (Str v) =
     (if matchesDateOnly v
      then (let y = Number (take 4 v); m = Number (take 2 (drop 5 v)); d = Number (drop 8 v)
            in Some (new_Date y (m - 1) d))
      else None)"
| "coerceDateOnly Null = None"

definition daysBetween :: "platform \<Rightarrow> date \<Rightarrow> date \<Rightarrow> int" where
  "daysBetween P a b =
     (let ad = getTime P (new_Date (getFullYear a) (getMonth a) (getDate a));
          bd = getTime P (new_Date (getFullYear b) (getMonth b) (getDate b))
      in Math_round (of_int (bd - ad) / of_int MS))"

definition dateToIdx :: "platform \<Rightarrow> state \<Rightarrow> date \<Rightarrow> int" where
  "dateToIdx P S d = daysBetween P (minDate S) d"

definition idxToDate :: "state \<Rightarrow> int \<Rightarrow> date" where
  "idxToDate S idx = setDate (minDate S) (getDate (minDate S) + idx)"

definition initDateBounds :: "platform \<Rightarrow> jsvalue \<Rightarrow> jsvalue \<Rightarrow> state \<Rightarrow> state" where
  "initDateBounds P attrMin attrMax S =
     (let today = todayLocal P;
          fallback = (setDate today (getDate today - 30), today);
          (minD, maxD) =
            (case coerceDateOnly attrMin of
               None \<Rightarrow> fallback
             | Some a \<Rightarrow>
                 (case coerceDateOnly attrMax of
                    None \<Rightarrow> fallback
                  | Some b \<Rightarrow> if getTime P a > getTime P b then fallback else (a, b)))
      in S\<lparr>minDate := minD, maxDate := maxD, dateMin := 0,
            dateMax := daysBetween P minD maxD\<rparr>)"

section \<open>Formatting\<close>

fun digits :: "nat \<Rightarrow> string" where
  "digits n = (if n < 10 then [''0123456789'' ! n]
               else digits (n div 10) @ [''0123456789'' ! (n mod 10)])"

definition String_int :: "int \<Rightarrow> string" where
  "String_int i = (if i < 0 then CHR ''-'' # digits (nat (- i)) else digits (nat i))"

definition String_num :: "platform \<Rightarrow> rat \<Rightarrow> string" where
  "String_num P x = (if of_int \<lfloor>x\<rfloor> = x then String_int \<lfloor>x\<rfloor> else fractionString P x)"

definition padStart :: "nat \<Rightarrow> char \<Rightarrow> string \<Rightarrow> string" where
  "padStart n c s = replicate (n - length s) c @ s"

definition fmtDateISO :: "date \<Rightarrow> string" where
  "fmtDateISO d =
     String_int (getFullYear d) @ ''-'' @ padStart 2 CHR ''0'' (String_int (getMonth d + 1))
       @ ''-'' @ padStart 2 CHR ''0'' (String_int (getDate d))"

text \<open>
  The minutes of the state are integers. Their quotient by 60 is taken exactly: for an
  integer below \<open>2^53\<close> the double nearest to the quotient has the same floor.
\<close>

definition minToHMS :: "int \<Rightarrow> int \<times> int \<times> int" where
  "minToHMS m = (Math_floor (of_int m / 60), js_rem m 60, 0)"

section \<open>Time zone arithmetic\<close>

text \<open>
  An offset is the quotient of a difference of instants by 60000 and need not be a whole
  number of minutes, so the arithmetic on offsets and on the instants corrected by them
  goes through the double-precision operations. \<open>new Date(epochMs)\<close> truncates its
  argument to an integer.
\<close>

definition Date_UTC :: "int \<Rightarrow> int \<Rightarrow> int \<Rightarrow> int \<Rightarrow> int \<Rightarrow> int \<Rightarrow> int" where
  "Date_UTC y m d h mi s =
     MakeDay (fullYear y) m d * MS + h * 3600000 + mi * 60000 + s * 1000"

definition getOffsetMinutes ::
  "float_ops \<Rightarrow> platform \<Rightarrow> string \<Rightarrow> rat \<Rightarrow> error + rat" where
  "getOffsetMinutes F P tz epochMs =
     (case formatToParts P tz (Math_trunc epochMs) of
        Inl e \<Rightarrow> Inl e
      | Inr p \<Rightarrow>
          (let asUTCms = Date_UTC (p_year p) (p_month p - 1) (p_day p)
                            (p_hour p) (p_minute p) (p_second p)
           in Inr (fdiv F (fsub F (of_int asUTCms) epochMs) 60000)))"

text \<open>The \<open>for\<close> loop of \<open>#localToEpoch\<close>, with the number of rounds that are left.\<close>

fun offset_loop ::
  "float_ops \<Rightarrow> platform \<Rightarrow> string \<Rightarrow> int \<Rightarrow> nat \<Rightarrow> rat \<Rightarrow> rat \<Rightarrow> error + rat" where
  "offset_loop F P tz guess 0 off epoch = Inr epoch"
| "offset_loop F P tz guess (Suc n) off epoch =
     (case getOffsetMinutes F P tz epoch of
        Inl e \<Rightarrow> Inl e
      | Inr noff \<Rightarrow>
          if noff = off then Inr epoch
          else offset_loop F P tz guess n noff (fsub F (of_int guess) (fmul F noff 60000)))"

definition localToEpoch ::
  "float_ops \<Rightarrow> platform \<Rightarrow> string \<Rightarrow> int \<Rightarrow> int \<Rightarrow> int \<Rightarrow> int \<Rightarrow> int \<Rightarrow> int \<Rightarrow> error + rat" where
  "localToEpoch F P tz y M d h m s =
     (let guess = Date_UTC y (M - 1) d h m s
      in case getOffsetMinutes F P tz (of_int guess) of
           Inl e \<Rightarrow> Inl e
         | Inr off \<Rightarrow>
             (case offset_loop F P tz guess 4 off (fsub F (of_int guess) (fmul F off 60000)) of
                Inl e \<Rightarrow> Inl e
              | Inr epoch \<Rightarrow>
                  (case formatToParts P tz (Math_trunc epoch) of
                     Inl e \<Rightarrow> Inl e
                   | Inr p \<Rightarrow>
                       (let ok = (p_year p = y \<and> p_month p = M \<and> p_day p = d \<and>
                                  p_hour p = h \<and> p_minute p = m \<and> p_second p = s)
                        in Inr (if ok then epoch else fadd F epoch 3600000)))))"

definition toISOWithOffset ::
  "float_ops \<Rightarrow> platform \<Rightarrow> string \<Rightarrow> int \<Rightarrow> int \<Rightarrow> int \<Rightarrow> int \<Rightarrow> int \<Rightarrow> int \<Rightarrow> error + string" where
  "toISOWithOffset F P tz y M d h m s =
     (case localToEpoch F P tz y M d h m s of
        Inl e \<Rightarrow> Inl e
      | Inr epoch \<Rightarrow>
          (case getOffsetMinutes F P tz epoch of
             Inl e \<Rightarrow> Inl e
           | Inr off \<Rightarrow>
               (let sign = (if off \<ge> 0 then ''+'' else ''-'');
                    abs = \<bar>off\<bar>;
                    oh = padStart 2 CHR ''0'' (String_int (Math_floor (fdiv F abs 60)));
                    om = padStart 2 CHR ''0'' (String_num P (js_rem_num abs 60));
                    YYYY = padStart 4 CHR ''0'' (String_int y);
                    MM = padStart 2 CHR ''0'' (String_int M);
                    DD = padStart 2 CHR ''0'' (String_int d);
                    HH = padStart 2 CHR ''0'' (String_int h);
                    MI = padStart 2 CHR ''0'' (String_int m);
                    SS = padStart 2 CHR ''0'' (String_int s)
                in Inr (YYYY @ ''-'' @ MM @ ''-'' @ DD @ ''T'' @ HH @ '':'' @ MI @ '':'' @ SS
                          @ sign @ oh @ '':'' @ om))))"

section \<open>The emitted payload\<close>

record detail =
  ev_dateStart :: string
  ev_dateEnd :: string
  ev_timeStart :: string
  ev_timeEnd :: string
  ev_timeZone :: string
  ev_crossesMidnight :: bool
  ev_timeStartMinutes :: int
  ev_timeEndMinutes :: int
  rangeStartDateTimeISO :: string
  rangeEndDateTimeISO :: string

text \<open>
  \<open>#emit\<close> builds the payload of the event; the formatter of the platform throws for a
  zone it does not know, and \<open>#emit\<close> lets the exception through.
\<close>

definition emit :: "float_ops \<Rightarrow> platform \<Rightarrow> state \<Rightarrow> error + detail" where
  "emit F P S =
     (let dS = idxToDate S (dateStart S);
          dE = idxToDate S (dateEnd S);
          (sH, sM, sS) = minToHMS (timeStart S);
          (eH, eM, eS) = minToHMS (timeEnd S);
          tz = timeZone S;
          crosses = (timeEnd S < timeStart S);
          dateStartISO = fmtDateISO dS;
          dateEndISO = fmtDateISO dE;
          timeStartISO = padStart 2 CHR ''0'' (String_int sH) @ '':''
                           @ padStart 2 CHR ''0'' (String_int sM) @ '':''
                           @ padStart 2 CHR ''0'' (String_int sS);
          timeEndISO = padStart 2 CHR ''0'' (String_int eH) @ '':''
                           @ padStart 2 CHR ''0'' (String_int eM) @ '':''
                           @ padStart 2 CHR ''0'' (String_int eS);
          endDateForRange = (if crosses then setDate dE (getDate dE + 1) else dE)
      in case toISOWithOffset F P tz (getFullYear dS) (getMonth dS + 1) (getDate dS) sH sM sS of
           Inl e \<Rightarrow> Inl e
         | Inr startDTISO \<Rightarrow>
             (case toISOWithOffset F P tz (getFullYear endDateForRange)
                     (getMonth endDateForRange + 1) (getDate endDateForRange) eH eM eS of
                Inl e \<Rightarrow> Inl e
              | Inr endDTISO \<Rightarrow>
                  Inr \<lparr>ev_dateStart = dateStartISO, ev_dateEnd = dateEndISO,
                       ev_timeStart = timeStartISO, ev_timeEnd = timeEndISO,
                       ev_timeZone = tz, ev_crossesMidnight = crosses,
                       ev_timeStartMinutes = timeStart S, ev_timeEndMinutes = timeEnd S,
                       rangeStartDateTimeISO = startDTISO,
                       rangeEndDateTimeISO = endDTISO\<rparr>))"

text \<open>
  To state what \<open>#emit\<close> computes: \<open>iso_at F P tz day minutes\<close> is the timestamp that
  \<open>#toISOWithOffset\<close> gives for the calendar day \<open>day\<close> at the minute \<open>minutes\<close> of
  the day, and \<open>exact_on_integers F\<close> says of the double-precision operations what
  correct rounding gives: a result that is an integer below \<open>2^53\<close> is not rounded.
\<close>

definition iso_at :: "float_ops \<Rightarrow> platform \<Rightarrow> string \<Rightarrow> date \<Rightarrow> int \<Rightarrow> error + string" where
  "iso_at F P tz day minutes =
     (case minToHMS minutes of
        (h, m, s) \<Rightarrow>
          toISOWithOffset F P tz (getFullYear day) (getMonth day + 1) (getDate day) h m s)"

definition small_integer :: "rat \<Rightarrow> bool" where
  "small_integer x = (of_int \<lfloor>x\<rfloor> = x \<and> \<bar>x\<bar> < 9007199254740992)"

definition exact_on_integers :: "float_ops \<Rightarrow> bool" where
  "exact_on_integers F =
     (\<forall>x y. (small_integer (x + y) \<longrightarrow> fadd F x y = x + y) \<and>
            (small_integer (x - y) \<longrightarrow> fsub F x y = x - y) \<and>
            (small_integer (x * y) \<longrightarrow> fmul F x y = x * y) \<and>
            (small_integer (x / y) \<longrightarrow> fdiv F x y = x / y))"

section \<open>The setter of the time zone\<close>

text \<open>
  \<open>set timeZone(v)\<close> tests \<open>if (v)\<close>, which the empty string fails, stores the zone,
  renders the preview of the offset with \<open>#renderTZ\<close> and emits the event. The model
  returns the state with what became of the event: \<open>None\<close> when the setter did nothing,
  \<open>Some (Inl e)\<close> when \<open>#renderTZ\<close> or \<open>#emit\<close> threw \<open>e\<close> out of the setter, and
  \<open>Some (Inr p)\<close> when the event went out with the payload \<open>p\<close>. \<open>#renderTZ\<close> gives
  the text of the preview; \<open>iso.slice(-6)\<close> is the last six characters of the timestamp.
\<close>

definition renderTZ :: "float_ops \<Rightarrow> platform \<Rightarrow> state \<Rightarrow> error + string" where
  "renderTZ F P S =
     (let d = idxToDate S (dateStart S);
          (h, m, s) = minToHMS (timeStart S)
      in case toISOWithOffset F P (timeZone S) (getFullYear d) (getMonth d + 1) (getDate d) h m s of
           Inl e \<Rightarrow> Inl e
         | Inr isoStr \<Rightarrow> Inr (timeZone S @ '' offset: '' @ drop (length isoStr - 6) isoStr))"

definition set_timeZone ::
  "float_ops \<Rightarrow> platform \<Rightarrow> string \<Rightarrow> state \<Rightarrow> state \<times> (error + detail) option" where
  "set_timeZone F P v S =
     (if v = [] then (S, None)
      else (let S' = S\<lparr>timeZone := v\<rparr>
            in (S', Some (case renderTZ F P S' of
                            Inl e \<Rightarrow> Inl e
                          | Inr preview \<Rightarrow> emit F P S'))))"

section \<open>A host in the zone UTC\<close>

text \<open>
  A host whose own zone is UTC and whose formatter knows the zone \<open>UTC\<close>, to evaluate
  the model on concrete inputs; \<open>scenario\<close> is the state of an element with the bounds
  2026-01-01 and 2026-12-31 and the selection 2026-02-01 to 2026-02-28, 22:00 to 06:00.
  The formatter prints the hours from 0 to 23; a host that prints midnight as hour 24
  agrees with it at every instant that is not in the first hour of a day.
\<close>

definition utc_formatToParts :: "string \<Rightarrow> int \<Rightarrow> error + parts" where
  "utc_formatToParts tz ms =
     (if tz = ''UTC''
      then (let day = ms div MS; tod = ms mod MS
            in Inr \<lparr>p_year = getFullYear day, p_month = getMonth day + 1, p_day = getDate day,
                    p_hour = tod div 3600000, p_minute = tod div 60000 mod 60,
                    p_second = tod div 1000 mod 60\<rparr>)
      else Inl RangeError)"

definition utc_host :: platform where
  "utc_host = \<lparr>formatToParts = utc_formatToParts, hostOffset = (\<lambda>_. 0),
               nowDay = 20511, fractionString = (\<lambda>_. [])\<rparr>"

definition scenario :: state where
  "scenario = \<lparr>minDate = new_Date 2026 0 1, maxDate = new_Date 2026 11 31, dateMin = 0,
     dateMax = 364, dateStart = 31, dateEnd = 58, dateStepDays = 1, timeMin = 0,
     timeMax = 1439, timeStart = 1320, timeEnd = 360, timeStep = 15, timeZone = ''UTC''\<rparr>"

section \<open>Properties of the tick planner\<close>

lemma tick_loop_inv:
  "tick_loop tot target cs (b, bd) = (b', bd') \<Longrightarrow> bd = \<bar>tot / of_int b - target\<bar> \<Longrightarrow>
     (b' = b \<or> b' \<in> set cs) \<and> bd' = \<bar>tot / of_int b' - target\<bar> \<and>
     \<bar>tot / of_int b' - target\<bar> \<le> bd \<and>
     (\<forall>c \<in> set cs. \<bar>tot / of_int b' - target\<bar> \<le> \<bar>tot / of_int c - target\<bar>)"
proof (induction cs arbitrary: b bd)
  case Nil
  then show ?case by auto
next
  case (Cons c cs)
  let ?d = "\<bar>tot / of_int c - target\<bar>"
  show ?case
  proof (cases "?d < bd")
    case True
    with Cons.prems have run: "tick_loop tot target cs (c, ?d) = (b', bd')"
      by (simp add: Let_def)
    from Cons.IH [OF run refl] True show ?thesis by auto
  next
    case False
    with Cons.prems have run: "tick_loop tot target cs (b, bd) = (b', bd')"
      by (simp add: Let_def)
    from Cons.IH [OF run Cons.prems(2)] False show ?thesis by auto
  qed
qed

text \<open>
  C8. For every number of days (in particular every \<open>totalDays \<ge> 1\<close>) and every
  target, the chosen step is one of the fixed candidates 1, 2, 5, 7, 14, 30, 60, 90, 120,
  180, 365 and no candidate is closer to the target count: it minimises
  \<open>|totalDays / candidate - target|\<close> over the set. For 365 days and the target 7 the
  choice is 60.
\<close>

theorem chooseDateTickStep_minimises:
  "chooseDateTickStep totalDays target \<in> set candidates \<and>
   (\<forall>c \<in> set candidates.
      \<bar>of_int totalDays / of_int (chooseDateTickStep totalDays target) - of_int target :: rat\<bar>
        \<le> \<bar>of_int totalDays / of_int c - of_int target\<bar>) \<and>
   chooseDateTickStep 365 7 = 60"
proof -
  let ?T = "of_int totalDays :: rat" and ?t = "of_int target :: rat"
  obtain b' bd' where run:
    "tick_loop ?T ?t candidates (candidates ! 0, \<bar>?T / of_int (candidates ! 0) - ?t\<bar>) = (b', bd')"
    by (cases "tick_loop ?T ?t candidates (candidates ! 0, \<bar>?T / of_int (candidates ! 0) - ?t\<bar>)")
  have best: "chooseDateTickStep totalDays target = b'"
    by (simp add: chooseDateTickStep_def run)
  note inv = tick_loop_inv [OF run refl]
  have "candidates ! 0 \<in> set candidates"
    by (simp add: candidates_def)
  with inv have mem: "b' \<in> set candidates" by auto
  from inv have least:
    "\<forall>c \<in> set candidates. \<bar>?T / of_int b' - ?t\<bar> \<le> \<bar>?T / of_int c - ?t\<bar>"
    by blast
  have concrete: "chooseDateTickStep 365 7 = 60"
    by (simp add: chooseDateTickStep_def candidates_def)
  show ?thesis
    unfolding best using mem least concrete by blast
qed

theorem chooseDateTickStep_minimises_witness:
  "chooseDateTickStep 20 7 = 2 \<and> 2 \<in> set candidates \<and>
   \<bar>of_int 20 / of_int 2 - of_int 7 :: rat\<bar> \<le> \<bar>of_int 20 / of_int 5 - of_int 7\<bar>"
proof -
  have v: "chooseDateTickStep 20 7 = 2"
    by (simp add: chooseDateTickStep_def candidates_def)
  have m: "(5::int) \<in> set candidates"
    by (simp add: candidates_def)
  from chooseDateTickStep_minimises [of 20 7] m v show ?thesis
    by (simp add: candidates_def)
qed

section \<open>Arithmetic of snapping and wrapping\<close>

lemma snapToStep_dvd: "step dvd snapToStep v step"
  by (simp add: snapToStep_def)

lemma floor_step: "1 \<le> step \<Longrightarrow> \<lfloor>(of_int v :: rat) / of_int step\<rfloor> = v div step"
  by (simp add: floor_divide_of_int_eq)

lemma Math_round_div: "1 \<le> step \<Longrightarrow> Math_round (of_int v / of_int step) = (2 * v + step) div (2 * step)"
proof -
  assume s: "1 \<le> step"
  have "(of_int v :: rat) / of_int step + 1 / 2 = of_int (2 * v + step) / of_int (2 * step)"
    using s by (simp add: field_simps)
  then show ?thesis
    unfolding Math_round_def by (simp only: floor_divide_of_int_eq)
qed

lemma snapToStep_div: "1 \<le> step \<Longrightarrow> snapToStep v step = (2 * v + step) div (2 * step) * step"
  by (simp add: snapToStep_def Math_round_div)

lemma snapToStep_nonneg: "1 \<le> step \<Longrightarrow> 0 \<le> v \<Longrightarrow> 0 \<le> snapToStep v step"
  by (simp add: snapToStep_div pos_imp_zdiv_nonneg_iff)

lemma snapToStep_mono: "1 \<le> step \<Longrightarrow> v \<le> w \<Longrightarrow> snapToStep v step \<le> snapToStep w step"
  by (simp add: snapToStep_div zdiv_mono1 mult_right_mono)

lemma snapToStep_one: "snapToStep v 1 = v"
proof -
  have "(2 * v + 1) div 2 = v" by presburger
  then show ?thesis by (simp add: snapToStep_div)
qed

lemma js_rem_1440: "js_rem v 1440 = (if 0 \<le> v then v mod 1440 else - ((- v) mod 1440))"
  by (simp add: js_rem_def sgn_if abs_if)

lemma js_rem_1440_bounds: "- 1440 < js_rem v 1440 \<and> js_rem v 1440 < 1440"
proof (cases "0 \<le> v")
  case True
  have "0 \<le> v mod 1440" "v mod 1440 < 1440" by simp_all
  with True show ?thesis by (simp add: js_rem_1440)
next
  case False
  have "0 \<le> (- v) mod 1440" "(- v) mod 1440 < 1440" by simp_all
  with False show ?thesis by (simp add: js_rem_1440)
qed

lemma js_rem_1440_cong: "js_rem v 1440 mod 1440 = v mod 1440"
proof (cases "0 \<le> v")
  case True
  then show ?thesis by (simp add: js_rem_1440)
next
  case False
  have "(- ((- v) mod 1440)) mod 1440 = (- (- v)) mod 1440"
    by (rule mod_minus_eq)
  with False show ?thesis by (simp add: js_rem_1440)
qed

lemma wrap_mod: "wrap v = v mod 1440"
proof -
  let ?r = "js_rem v 1440"
  from js_rem_1440_bounds [of v] have "0 \<le> ?r + 1440" by simp
  then have "js_rem (?r + 1440) 1440 = (?r + 1440) mod 1440"
    by (simp only: js_rem_1440 if_True)
  also have "\<dots> = ?r mod 1440" by simp
  also have "\<dots> = v mod 1440" by (rule js_rem_1440_cong)
  finally show ?thesis by (simp add: wrap_def)
qed

lemma Math_floor_div: "Math_floor (of_int v / of_int step) = v div step"
  by (simp add: Math_floor_def floor_divide_of_int_eq)

lemma Math_ceil_div: "Math_ceil (of_int v / of_int step) = - ((- v) div step)"
proof -
  have "- ((of_int v :: rat) / of_int step) = of_int (- v) / of_int step" by simp
  then show ?thesis
    unfolding Math_ceil_def ceiling_def by (simp only: floor_divide_of_int_eq)
qed

lemma floor_step_bounds:
  assumes "1 \<le> step" "0 \<le> M"
  shows "0 \<le> Math_floor (of_int M / of_int step) * step \<and>
         Math_floor (of_int M / of_int step) * step \<le> M"
proof -
  have "0 \<le> M div step" using assms by (simp add: pos_imp_zdiv_nonneg_iff)
  moreover have "M div step * step \<le> M"
    using assms div_mult_mod_eq [of M step] pos_mod_sign [of step M] by linarith
  ultimately show ?thesis using assms by (simp add: Math_floor_div)
qed

lemma ceil_step_bounds:
  assumes "1 \<le> step" "m \<le> 0"
  shows "m \<le> Math_ceil (of_int m / of_int step) * step \<and>
         Math_ceil (of_int m / of_int step) * step \<le> 0"
proof -
  have "0 \<le> (- m) div step" using assms by (simp add: pos_imp_zdiv_nonneg_iff)
  moreover have "(- m) div step * step \<le> - m"
    using assms div_mult_mod_eq [of "- m" step] pos_mod_sign [of step "- m"] by linarith
  ultimately show ?thesis using assms by (simp add: Math_ceil_div mult_nonneg_nonneg)
qed


lemma clamp_shift_int:
  fixes lo' hi' sh d e :: int
  assumes "d \<le> lo'" "lo' \<le> 0" "0 \<le> hi'" "hi' \<le> e"
  shows "d \<le> max lo' (min hi' sh) \<and> max lo' (min hi' sh) \<le> e \<and>
         lo' \<le> max lo' (min hi' sh) \<and> max lo' (min hi' sh) \<le> hi' \<and>
         max lo' (min hi' 0) = 0"
  using assms by (auto simp: max_def min_def)

lemma dragged_update: "dragged (G\<lparr>dragged := c\<rparr>) = c"
  by simp

lemma onPointerMove_fst:
  "fst (onPointerMove F G S clientX clientY) =
     G\<lparr>dragged := (if dragged G then True
          else hypot_gt F (fsub F clientX (downX G)) (fsub F clientY (downY G))
                 CLICK_PX_THRESHOLD)\<rparr>"
  unfolding onPointerMove_def Let_def by (simp only: fst_conv)

lemma onPointerMove_dragged_iff:
  "dragged (fst (onPointerMove F G S clientX clientY)) =
     (if dragged G then True
      else hypot_gt F (fsub F clientX (downX G)) (fsub F clientY (downY G))
             CLICK_PX_THRESHOLD)"
  unfolding onPointerMove_fst by (rule dragged_update)

lemma onPointerMove_snd_date:
  assumes "isDate G" and "dragged (fst (onPointerMove F G S clientX clientY))"
  shows "snd (onPointerMove F G S clientX clientY) =
           S\<lparr>dateStart := init_a (init G) + max (minShiftStep (init G)) (min (maxShiftStep (init G))
                    (rounded_shift (init G) (scaled_shift F G clientX (init_span (init G))))),
              dateEnd := init_b (init G) + max (minShiftStep (init G)) (min (maxShiftStep (init G))
                    (rounded_shift (init G) (scaled_shift F G clientX (init_span (init G)))))\<rparr>"
proof -
  from assms(2) have d: "(if dragged G then True
       else hypot_gt F (fsub F clientX (downX G)) (fsub F clientY (downY G))
              CLICK_PX_THRESHOLD) = True"
    by (simp only: onPointerMove_dragged_iff simp_thms)
  show ?thesis
    unfolding onPointerMove_def Let_def scaled_shift_def drag_ratio_def rounded_shift_def
      minShiftStep_def maxShiftStep_def
    by (simp only: snd_conv dragged_update d assms(1) if_True)
qed

lemma onPointerMove_snd_time:
  assumes "\<not> isDate G" and "dragged (fst (onPointerMove F G S clientX clientY))"
  shows "snd (onPointerMove F G S clientX clientY) =
           S\<lparr>timeStart := wrap (init_a (init G) +
                    rounded_shift (init G) (scaled_shift F G clientX (init_span (init G) + 1))),
              timeEnd := wrap (init_b (init G) +
                    rounded_shift (init G) (scaled_shift F G clientX (init_span (init G) + 1)))\<rparr>"
proof -
  from assms(2) have d: "(if dragged G then True
       else hypot_gt F (fsub F clientX (downX G)) (fsub F clientY (downY G))
              CLICK_PX_THRESHOLD) = True"
    by (simp only: onPointerMove_dragged_iff simp_thms)
  from assms(1) have nd: "isDate G = False" by simp
  show ?thesis
    unfolding onPointerMove_def Let_def scaled_shift_def drag_ratio_def rounded_shift_def
    by (simp only: snd_conv dragged_update d nd if_True if_False)
qed

lemma onPointerMove_snd_idle:
  assumes "\<not> dragged (fst (onPointerMove F G S clientX clientY))"
  shows "snd (onPointerMove F G S clientX clientY) = S"
proof -
  from assms have d: "(if dragged G then True
       else hypot_gt F (fsub F clientX (downX G)) (fsub F clientY (downY G))
              CLICK_PX_THRESHOLD) = False"
    by (simp only: onPointerMove_dragged_iff simp_thms)
  show ?thesis
    unfolding onPointerMove_def Let_def
    by (simp only: snd_conv dragged_update d if_False)
qed

lemma exact_ops_fields:
  "fadd exact_ops x y = x + y" "fsub exact_ops x y = x - y" "fmul exact_ops x y = x * y"
  "fdiv exact_ops x y = x / y" "hypot_gt exact_ops dx dy t = (t * t < dx * dx + dy * dy)"
  by (simp_all add: exact_ops_def)

lemma clamp_idem: "lo \<le> hi \<Longrightarrow> clamp lo hi (clamp lo hi v) = clamp lo hi v"
  by (simp add: clamp_def)

lemma clamp_bounds: "lo \<le> hi \<Longrightarrow> lo \<le> clamp lo hi v \<and> clamp lo hi v \<le> hi"
  by (simp add: clamp_def)

lemma set_timeRange_fields:
  assumes "timeMin S = 0" "timeMax S = 1439"
  shows "timeStart (set_timeRange startMinutes endMinutes S) =
           snapToStep (clamp 0 1439 (Math_round startMinutes)) (timeStep S)"
    and "timeEnd (set_timeRange startMinutes endMinutes S) =
           snapToStep (clamp 0 1439 (Math_round endMinutes)) (timeStep S)"
  using assms by (simp_all add: set_timeRange_def clampAndSyncTimes_def Let_def clamp_idem)

lemma Math_round_eq_round: "Math_round x = round x"
  by (simp add: Math_round_def round_def)

lemma Math_round_numeral: "Math_round (numeral n) = numeral n"
  by (simp add: Math_round_eq_round)

lemma Math_round_zero: "Math_round 0 = 0"
  by (simp add: Math_round_eq_round)

lemma Math_round_of_int: "Math_round (of_int n) = n"
  by (simp add: Math_round_eq_round)

section \<open>Clamping and snapping the selection\<close>

text \<open>
  C1. After \<open>#clampAndSyncDates\<close> and \<open>#clampAndSyncTimes\<close> the selection is meant
  to lie within its bounds and on multiples of the step. The helpers clamp first and snap
  afterwards, and the snapped value is not clamped again: with the initial time step of 15
  minutes the minute 1439 is snapped to 1440, above \<open>timeMax = 1439\<close>, and with a date
  step of 7 days and \<open>dateMax = 4\<close> the index 4 is snapped to 7.
\<close>

theorem clampAndSync_exceeds_max:
  "timeStart (clampAndSyncTimes (state0\<lparr>timeStart := 1439\<rparr>)) = 1440 \<and>
   timeMax (clampAndSyncTimes (state0\<lparr>timeStart := 1439\<rparr>)) = 1439 \<and>
   dateEnd (clampAndSyncDates (state0\<lparr>dateMax := 4, dateStepDays := 7, dateEnd := 4\<rparr>)) = 7 \<and>
   dateMax (clampAndSyncDates (state0\<lparr>dateMax := 4, dateStepDays := 7, dateEnd := 4\<rparr>)) = 4"
  by (simp add: clampAndSyncTimes_def clampAndSyncDates_def state0_def snapToStep_div clamp_def)

text \<open>
  C5 (counterexample). The setter of \<open>timeRange\<close> does not keep the relation of the
  rounded and clamped pair: the pair (7, 0) crosses midnight, and with the step of 15
  minutes it is stored as (0, 0), which does not.
\<close>

theorem set_timeRange_wrap_counterexample:
  "timeStart (set_timeRange 7 0 state0) = 0 \<and> timeEnd (set_timeRange 7 0 state0) = 0 \<and>
   clamp 0 1439 (Math_round 7) = 7 \<and> clamp 0 1439 (Math_round 0) = 0 \<and>
   \<not> (crossesMidnight (set_timeRange 7 0 state0)
        = (clamp 0 1439 (Math_round 0) < clamp 0 1439 (Math_round 7)))"
  by (simp add: set_timeRange_def clampAndSyncTimes_def state0_def snapToStep_div clamp_def
        crossesMidnight_def Math_round_numeral Math_round_zero Let_def)

text \<open>
  C5 (as amended). For every pair of finite numbers, let \<open>s\<close> and \<open>e\<close> be the two inputs
  rounded to the nearest integer and clamped into [0, 1439]. Where the multiples of
  \<open>timeStep\<close> nearest to \<open>s\<close> and to \<open>e\<close> are at most 1439, the setter of
  \<open>timeRange\<close> stores these two multiples, each endpoint on its own and without a swap:
  the stored values lie in [0, 1439], and the stored pair crosses midnight only if
  \<open>(s, e)\<close> does. With \<open>timeStep = 1\<close> the stored pair is \<open>(s, e)\<close> and crosses midnight
  exactly when \<open>(s, e)\<close> does. Nothing is said of an endpoint whose nearest multiple
  exceeds 1439 (see C1), nor of \<open>NaN\<close>.
\<close>

theorem set_timeRange_snaps:
  fixes S :: state and startMinutes endMinutes :: rat
  assumes "timeMin S = 0" and "timeMax S = 1439" and "1 \<le> timeStep S"
  defines "s \<equiv> clamp 0 1439 (Math_round startMinutes)"
    and "e \<equiv> clamp 0 1439 (Math_round endMinutes)"
    and "S' \<equiv> set_timeRange startMinutes endMinutes S"
  shows "(snapToStep s (timeStep S) \<le> 1439 \<and> snapToStep e (timeStep S) \<le> 1439 \<longrightarrow>
           timeStart S' = snapToStep s (timeStep S) \<and> timeEnd S' = snapToStep e (timeStep S) \<and>
           0 \<le> timeStart S' \<and> timeStart S' \<le> 1439 \<and> 0 \<le> timeEnd S' \<and> timeEnd S' \<le> 1439 \<and>
           timeStep S dvd timeStart S' \<and> timeStep S dvd timeEnd S' \<and>
           (crossesMidnight S' \<longrightarrow> e < s)) \<and>
         (timeStep S = 1 \<longrightarrow>
           timeStart S' = s \<and> timeEnd S' = e \<and> crossesMidnight S' = (e < s))"
proof -
  have f: "timeStart S' = snapToStep s (timeStep S)" "timeEnd S' = snapToStep e (timeStep S)"
    unfolding S'_def s_def e_def by (rule set_timeRange_fields [OF assms(1,2)])+
  have nn: "0 \<le> s" "0 \<le> e"
    unfolding s_def e_def using clamp_bounds [of 0 1439] by simp_all
  have pos: "0 \<le> timeStart S'" "0 \<le> timeEnd S'"
    unfolding f using nn assms(3) by (simp_all add: snapToStep_nonneg)
  have dv: "timeStep S dvd timeStart S'" "timeStep S dvd timeEnd S'"
    unfolding f by (rule snapToStep_dvd)+
  have mono: "crossesMidnight S' \<longrightarrow> e < s"
  proof
    assume "crossesMidnight S'"
    then have lt: "snapToStep e (timeStep S) < snapToStep s (timeStep S)"
      by (simp add: crossesMidnight_def f)
    show "e < s"
    proof (rule ccontr)
      assume "\<not> e < s"
      then have "s \<le> e" by simp
      from snapToStep_mono [OF assms(3) this] lt show False by simp
    qed
  qed
  have one: "timeStep S = 1 \<longrightarrow> timeStart S' = s \<and> timeEnd S' = e \<and> crossesMidnight S' = (e < s)"
    by (simp add: f snapToStep_one crossesMidnight_def)
  have bounded: "snapToStep s (timeStep S) \<le> 1439 \<and> snapToStep e (timeStep S) \<le> 1439 \<longrightarrow>
           timeStart S' \<le> 1439 \<and> timeEnd S' \<le> 1439"
    by (simp add: f)
  from f pos dv mono one bounded show ?thesis by blast
qed

theorem set_timeRange_snaps_witness:
  "timeStart (set_timeRange (1321 / 2) 0 state0) = 660 \<and>
   timeEnd (set_timeRange (1321 / 2) 0 state0) = 0 \<and>
   (15::int) dvd 660"
proof -
  have h: "timeMin state0 = 0" "timeMax state0 = 1439" "1 \<le> timeStep state0"
    by (simp_all add: state0_def)
  have c: "clamp 0 1439 (Math_round (1321 / 2)) = 661" "clamp 0 1439 (Math_round 0) = 0"
    by (simp_all add: clamp_def Math_round_def)
  have st: "timeStep state0 = 15" by (simp add: state0_def)
  have sn: "snapToStep 661 15 = 660" "snapToStep 0 15 = 0"
    by (simp_all add: snapToStep_div)
  from set_timeRange_snaps [OF h, of "1321 / 2" 0] show ?thesis
    unfolding c st sn by simp
qed

section \<open>Dragging and recentering the window\<close>

lemma shift_steps:
  assumes "1 \<le> init_step I" "init_min I \<le> init_a I" "init_b I \<le> init_max I"
  shows "init_min I - init_a I \<le> minShiftStep I" "minShiftStep I \<le> 0"
        "0 \<le> maxShiftStep I" "maxShiftStep I \<le> init_max I - init_b I"
proof -
  have "init_min I - init_a I \<le> minShiftStep I \<and> minShiftStep I \<le> 0"
    unfolding minShiftStep_def using assms by (intro ceil_step_bounds) simp_all
  then show "init_min I - init_a I \<le> minShiftStep I" "minShiftStep I \<le> 0" by simp_all
  have "0 \<le> maxShiftStep I \<and> maxShiftStep I \<le> init_max I - init_b I"
    unfolding maxShiftStep_def using assms by (intro floor_step_bounds) simp_all
  then show "0 \<le> maxShiftStep I" "maxShiftStep I \<le> init_max I - init_b I" by simp_all
qed

text \<open>
  C2. For a snapshot \<open>(a, b)\<close> taken at pointer-down with
  \<open>dateMin \<le> a \<le> b \<le> dateMax\<close> and a step of at least one day, and whatever the
  double arithmetic makes of the pointer displacement: every pointer move of a drag on the
  date track sets the selection to \<open>(a + shift, b + shift)\<close>, where \<open>shift\<close> is the
  step-rounded displacement \<open>r\<close> clamped into
  \<open>[ceil((dateMin - a) / step) * step, floor((dateMax - b) / step) * step]\<close>. Both
  endpoints stay within \<open>[dateMin, dateMax]\<close>, and a rounded displacement of 0 gives back
  the snapshot.
\<close>

theorem date_track_drag_clamped:
  fixes F :: float_ops and G :: gesture and S :: state and clientX clientY :: rat
  assumes "isDate G" and "1 \<le> init_step (init G)"
    and "init_min (init G) \<le> init_a (init G)" and "init_a (init G) \<le> init_b (init G)"
    and "init_b (init G) \<le> init_max (init G)"
    and "dragged (fst (onPointerMove F G S clientX clientY))"
  defines "r \<equiv> rounded_shift (init G) (scaled_shift F G clientX (init_span (init G)))"
  defines "shift \<equiv> max (minShiftStep (init G)) (min (maxShiftStep (init G)) r)"
  defines "S' \<equiv> snd (onPointerMove F G S clientX clientY)"
  shows "dateStart S' = init_a (init G) + shift \<and> dateEnd S' = init_b (init G) + shift \<and>
         minShiftStep (init G) \<le> shift \<and> shift \<le> maxShiftStep (init G) \<and>
         init_min (init G) \<le> dateStart S' \<and> dateStart S' \<le> dateEnd S' \<and>
         dateEnd S' \<le> init_max (init G) \<and>
         (r = 0 \<longrightarrow> dateStart S' = init_a (init G) \<and> dateEnd S' = init_b (init G))"
proof -
  let ?I = "init G"
  have S': "S' = S\<lparr>dateStart := init_a ?I + shift, dateEnd := init_b ?I + shift\<rparr>"
    unfolding S'_def shift_def r_def by (rule onPointerMove_snd_date [OF assms(1,6)])
  have sel: "dateStart S' = init_a ?I + shift" "dateEnd S' = init_b ?I + shift"
    by (simp_all add: S')
  note st = shift_steps [OF assms(2,3,5)]
  have cl: "init_min ?I - init_a ?I \<le> shift" "shift \<le> init_max ?I - init_b ?I"
      "minShiftStep ?I \<le> shift" "shift \<le> maxShiftStep ?I"
    using clamp_shift_int [OF st, of r] by (simp_all add: shift_def)
  have z: "r = 0 \<longrightarrow> shift = 0"
    using clamp_shift_int [OF st, of r] by (simp add: shift_def)
  from cl sel assms(4) z show ?thesis
    by simp
qed

theorem date_track_drag_clamped_witness:
  "dateStart (snd (onPointerMove exact_ops
      \<lparr>isDate = True, rect_width = 300, downX = 0, downY = 0, dragged = False,
        init = \<lparr>init_a = 10, init_b = 20, init_min = 0, init_max = 30, init_step = 5,
                init_span = 30\<rparr>\<rparr> state0 200 0)) = 20 \<and>
   dateEnd (snd (onPointerMove exact_ops
      \<lparr>isDate = True, rect_width = 300, downX = 0, downY = 0, dragged = False,
        init = \<lparr>init_a = 10, init_b = 20, init_min = 0, init_max = 30, init_step = 5,
                init_span = 30\<rparr>\<rparr> state0 200 0)) = 30"
proof -
  let ?I = "\<lparr>init_a = 10, init_b = 20, init_min = 0, init_max = 30, init_step = 5,
                init_span = 30\<rparr>"
  let ?G = "\<lparr>isDate = True, rect_width = 300, downX = 0, downY = 0, dragged = False,
             init = ?I\<rparr>"
  have d: "dragged (fst (onPointerMove exact_ops ?G state0 200 0))"
    by (simp add: onPointerMove_dragged_iff exact_ops_fields CLICK_PX_THRESHOLD_def)
  have lo: "minShiftStep ?I = - 10"
    by (simp add: minShiftStep_def Math_ceil_def)
  have hi: "maxShiftStep ?I = 10"
    by (simp add: maxShiftStep_def Math_floor_def)
  have k: "scaled_shift exact_ops ?G 200 30 = 20"
    by (simp add: scaled_shift_def drag_ratio_def exact_ops_fields Math_round_numeral)
  have r: "rounded_shift ?I 20 = 20"
    by (simp add: rounded_shift_def Math_round_numeral)
  from date_track_drag_clamped [of ?G exact_ops state0 200 0, OF _ _ _ _ _ d]
  show ?thesis
    by (simp add: lo hi k r)
qed

lemma wrap_diff: "(wrap (b + s) - wrap (a + s)) mod 1440 = (b - a) mod 1440"
proof -
  have "(wrap (b + s) - wrap (a + s)) mod 1440 = ((b + s) mod 1440 - (a + s) mod 1440) mod 1440"
    by (simp only: wrap_mod)
  also have "\<dots> = ((b + s) - (a + s)) mod 1440"
    by (rule mod_diff_eq)
  also have "\<dots> = (b - a) mod 1440" by simp
  finally show ?thesis .
qed

text \<open>
  C3. A drag on the time track does not clamp: for the snapshot \<open>(a, b)\<close> and the
  step-rounded shift \<open>s\<close>, whatever the double arithmetic makes of the pointer
  displacement, the selection becomes \<open>(wrap(a + s), wrap(b + s))\<close>, and
  \<open>wrap(x) = ((x % 1440) + 1440) % 1440\<close> is \<open>x\<close> modulo 1440. A drag that shifts the
  snapshot (1320, 360) by 120 minutes gives (0, 480), which does not cross midnight.
\<close>

theorem time_track_drag_wraps:
  fixes F :: float_ops and G :: gesture and S :: state and clientX clientY :: rat
  assumes "\<not> isDate G" and "dragged (fst (onPointerMove F G S clientX clientY))"
  defines "s \<equiv> rounded_shift (init G) (scaled_shift F G clientX (init_span (init G) + 1))"
  defines "S' \<equiv> snd (onPointerMove F G S clientX clientY)"
  shows "timeStart S' = wrap (init_a (init G) + s) \<and> timeEnd S' = wrap (init_b (init G) + s) \<and>
         wrap (init_a (init G) + s) = (init_a (init G) + s) mod 1440 \<and>
         wrap (init_b (init G) + s) = (init_b (init G) + s) mod 1440 \<and>
         (init_a (init G) = 1320 \<and> init_b (init G) = 360 \<and> s = 120 \<longrightarrow>
            timeStart S' = 0 \<and> timeEnd S' = 480 \<and> \<not> crossesMidnight S')"
proof -
  have S': "S' = S\<lparr>timeStart := wrap (init_a (init G) + s), timeEnd := wrap (init_b (init G) + s)\<rparr>"
    unfolding S'_def s_def by (rule onPointerMove_snd_time [OF assms(1,2)])
  have sel: "timeStart S' = wrap (init_a (init G) + s)" "timeEnd S' = wrap (init_b (init G) + s)"
    by (simp_all add: S')
  have ex: "init_a (init G) = 1320 \<and> init_b (init G) = 360 \<and> s = 120 \<longrightarrow>
            timeStart S' = 0 \<and> timeEnd S' = 480 \<and> \<not> crossesMidnight S'"
    by (simp add: sel crossesMidnight_def wrap_mod)
  from sel ex show ?thesis by (simp only: wrap_mod simp_thms)
qed

theorem time_track_drag_wraps_witness:
  "timeStart (snd (onPointerMove exact_ops
      \<lparr>isDate = False, rect_width = 1200, downX = 0, downY = 0, dragged = False,
        init = \<lparr>init_a = 1320, init_b = 360, init_min = 0, init_max = 1439, init_step = 15,
                init_span = 1439\<rparr>\<rparr> state0 100 0)) = 0 \<and>
   timeEnd (snd (onPointerMove exact_ops
      \<lparr>isDate = False, rect_width = 1200, downX = 0, downY = 0, dragged = False,
        init = \<lparr>init_a = 1320, init_b = 360, init_min = 0, init_max = 1439, init_step = 15,
                init_span = 1439\<rparr>\<rparr> state0 100 0)) = 480 \<and>
   onPointerDown False state0 0 1200 0 0 =
     Some \<lparr>isDate = False, rect_width = 1200, downX = 0, downY = 0, dragged = False,
        init = \<lparr>init_a = 1320, init_b = 360, init_min = 0, init_max = 1439, init_step = 15,
                init_span = 1439\<rparr>\<rparr>"
proof -
  let ?I = "\<lparr>init_a = 1320, init_b = 360, init_min = 0, init_max = 1439, init_step = 15,
                init_span = 1439\<rparr>"
  let ?G = "\<lparr>isDate = False, rect_width = 1200, downX = 0, downY = 0, dragged = False,
             init = ?I\<rparr>"
  have down: "onPointerDown False state0 0 1200 0 0 = Some ?G"
    by (simp add: onPointerDown_def state0_def)
  have d: "dragged (fst (onPointerMove exact_ops ?G state0 100 0))"
    by (simp add: onPointerMove_dragged_iff exact_ops_fields CLICK_PX_THRESHOLD_def)
  have k: "scaled_shift exact_ops ?G 100 1440 = 120"
    by (simp add: scaled_shift_def drag_ratio_def exact_ops_fields Math_round_numeral)
  have r: "rounded_shift ?I 120 = 120"
    by (simp add: rounded_shift_def Math_round_numeral)
  from time_track_drag_wraps [of ?G exact_ops state0 100 0, OF _ d] down
  show ?thesis
    by (simp add: k r)
qed

lemma recenterDateAt_width:
  "dateEnd (recenterDateAt F ratio S) - dateStart (recenterDateAt F ratio S)
     = dateEnd S - dateStart S"
proof -
  obtain sh where "recenterDateAt F ratio S =
      S\<lparr>dateStart := dateStart S + sh, dateEnd := dateEnd S + sh\<rparr>"
    unfolding recenterDateAt_def Let_def by blast
  then show ?thesis by simp
qed

lemma recenterTimeAt_width:
  "(timeEnd (recenterTimeAt F ratio S) - timeStart (recenterTimeAt F ratio S)) mod 1440
     = (timeEnd S - timeStart S) mod 1440"
proof -
  obtain sh where "recenterTimeAt F ratio S =
      S\<lparr>timeStart := wrap (timeStart S + sh), timeEnd := wrap (timeEnd S + sh)\<rparr>"
    unfolding recenterTimeAt_def Let_def by blast
  then show ?thesis by (simp add: wrap_diff)
qed

text \<open>
  C10. The four gestures that move the whole window keep its width, whatever the double
  arithmetic makes of the pointer position. A drag sets the selection from the snapshot
  taken at pointer-down, whose endpoints are the selection of that moment: on the date
  track \<open>dateEnd - dateStart\<close> is the width of the snapshot, on the time track the width
  modulo 1440 is. A pointer move that is not yet a drag leaves the state as it is.
  Recentering the dates keeps \<open>dateEnd - dateStart\<close>, recentering the times keeps
  \<open>(timeEnd - timeStart) mod 1440\<close>.
\<close>

theorem whole_window_gestures_preserve_width:
  fixes F :: float_ops and G :: gesture and S :: state and clientX clientY ratio :: rat
  defines "S' \<equiv> snd (onPointerMove F G S clientX clientY)"
  shows "(dragged (fst (onPointerMove F G S clientX clientY)) \<longrightarrow>
            (if isDate G
             then dateEnd S' - dateStart S' = init_b (init G) - init_a (init G)
             else (timeEnd S' - timeStart S') mod 1440
                    = (init_b (init G) - init_a (init G)) mod 1440)) \<and>
         (\<not> dragged (fst (onPointerMove F G S clientX clientY)) \<longrightarrow> S' = S) \<and>
         (onPointerDown isD S button width downx downy = Some G \<longrightarrow>
            init_b (init G) - init_a (init G)
              = (if isD then dateEnd S - dateStart S else timeEnd S - timeStart S)) \<and>
         dateEnd (recenterDateAt F ratio S) - dateStart (recenterDateAt F ratio S)
           = dateEnd S - dateStart S \<and>
         (timeEnd (recenterTimeAt F ratio S) - timeStart (recenterTimeAt F ratio S)) mod 1440
           = (timeEnd S - timeStart S) mod 1440"
proof -
  have drag: "dragged (fst (onPointerMove F G S clientX clientY)) \<longrightarrow>
            (if isDate G
             then dateEnd S' - dateStart S' = init_b (init G) - init_a (init G)
             else (timeEnd S' - timeStart S') mod 1440
                    = (init_b (init G) - init_a (init G)) mod 1440)"
  proof
    assume d: "dragged (fst (onPointerMove F G S clientX clientY))"
    show "if isDate G
             then dateEnd S' - dateStart S' = init_b (init G) - init_a (init G)
             else (timeEnd S' - timeStart S') mod 1440
                    = (init_b (init G) - init_a (init G)) mod 1440"
    proof (cases "isDate G")
      case True
      from onPointerMove_snd_date [OF True d] True show ?thesis
        unfolding S'_def by simp
    next
      case False
      from onPointerMove_snd_time [OF False d] False show ?thesis
        unfolding S'_def by (simp add: wrap_diff)
    qed
  qed
  have idle: "\<not> dragged (fst (onPointerMove F G S clientX clientY)) \<longrightarrow> S' = S"
    unfolding S'_def using onPointerMove_snd_idle by blast
  have down: "onPointerDown isD S button width downx downy = Some G \<longrightarrow>
            init_b (init G) - init_a (init G)
              = (if isD then dateEnd S - dateStart S else timeEnd S - timeStart S)"
    by (auto simp: onPointerDown_def split: if_splits)
  from drag idle down recenterDateAt_width recenterTimeAt_width show ?thesis
    by blast
qed

theorem whole_window_gestures_preserve_width_witness:
  "(timeEnd (snd (onPointerMove exact_ops
      \<lparr>isDate = False, rect_width = 1200, downX = 0, downY = 0, dragged = False,
        init = \<lparr>init_a = 1320, init_b = 360, init_min = 0, init_max = 1439, init_step = 15,
                init_span = 1439\<rparr>\<rparr> state0 100 0))
    - timeStart (snd (onPointerMove exact_ops
      \<lparr>isDate = False, rect_width = 1200, downX = 0, downY = 0, dragged = False,
        init = \<lparr>init_a = 1320, init_b = 360, init_min = 0, init_max = 1439, init_step = 15,
                init_span = 1439\<rparr>\<rparr> state0 100 0))) mod 1440 = 480"
proof -
  let ?I = "\<lparr>init_a = 1320, init_b = 360, init_min = 0, init_max = 1439, init_step = 15,
                init_span = 1439\<rparr>"
  let ?G = "\<lparr>isDate = False, rect_width = 1200, downX = 0, downY = 0, dragged = False,
             init = ?I\<rparr>"
  have d: "dragged (fst (onPointerMove exact_ops ?G state0 100 0))"
    by (simp add: onPointerMove_dragged_iff exact_ops_fields CLICK_PX_THRESHOLD_def)
  from whole_window_gestures_preserve_width [of exact_ops ?G state0 100 0] d
  show ?thesis by simp
qed

section \<open>Calendar arithmetic\<close>

lemma MonthFromDay_range: "0 \<le> MonthFromDay leap n \<and> MonthFromDay leap n \<le> 11"
  by (simp add: MonthFromDay_def)

lemma MakeDay_fields: "MakeDay (getFullYear t) (getMonth t) (getDate t + k) = t + k"
proof -
  have m: "0 \<le> getMonth t" "getMonth t \<le> 11"
    using MonthFromDay_range by (simp_all add: getMonth_def)
  then have "getMonth t div 12 = 0" "getMonth t mod 12 = getMonth t" by simp_all
  then show ?thesis
    by (simp add: MakeDay_def getDate_def getFullYear_def)
qed

lemma div_bounds:
  fixes a k :: int
  assumes "0 < k"
  shows "k * (a div k) \<le> a" "a < k * (a div k) + k"
proof -
  have "a = k * (a div k) + a mod k" by simp
  moreover have "0 \<le> a mod k" "a mod k < k" using assms by simp_all
  ultimately show "k * (a div k) \<le> a" "a < k * (a div k) + k" by linarith+
qed

lemma year_days_lower:
  fixes y q4 q100 q400 :: int
  assumes "y - 1969 < 4 * q4 + 4" "100 * q100 \<le> y - 1901" "y - 1601 < 400 * q400 + 400"
  shows "146097 * (y - 1970) - 1000 < 400 * (365 * (y - 1970) + q4 - q100 + q400)"
  using assms by (simp add: algebra_simps)

lemma year_days_upper:
  fixes y q4 q100 q400 :: int
  assumes "4 * q4 \<le> y - 1969" "y - 1901 < 100 * q100 + 100" "400 * q400 \<le> y - 1601"
  shows "400 * (365 * (y - 1970) + q4 - q100 + q400) < 146097 * (y - 1970) + 1000"
  using assms by (simp add: algebra_simps)

lemma DayFromYear_lower: "146097 * (y - 1970) - 1000 < 400 * DayFromYear y"
  unfolding DayFromYear_def
  by (rule year_days_lower) (simp_all add: div_bounds)

lemma DayFromYear_upper: "400 * DayFromYear y < 146097 * (y - 1970) + 1000"
  unfolding DayFromYear_def
  by (rule year_days_upper) (simp_all add: div_bounds)

lemma DayFromYear_mono: "y1 \<le> y2 \<Longrightarrow> DayFromYear y1 \<le> DayFromYear y2"
proof (cases "y1 = y2")
  case True
  then show ?thesis by simp
next
  case False
  assume "y1 \<le> y2"
  with False have step: "y1 + 1 \<le> y2" by simp
  have "\<And>d1 d2 :: int. 400 * d1 < 146097 * (y1 - 1970) + 1000 \<Longrightarrow>
          146097 * (y2 - 1970) - 1000 < 400 * d2 \<Longrightarrow> d1 \<le> d2"
    using step by (simp add: algebra_simps)
  from this [OF DayFromYear_upper DayFromYear_lower] show ?thesis .
qed

lemma year_estimate_upper:
  fixes t q d :: int
  assumes "400 * t < 146097 * q + 146097" "146097 * (1970 + q + 2 - 1970) - 1000 < 400 * d"
  shows "t < d"
  using assms by (simp add: algebra_simps)

lemma year_estimate_lower:
  fixes t q d :: int
  assumes "146097 * q \<le> 400 * t" "400 * d < 146097 * (1970 + q - 1 - 1970) + 1000"
  shows "d \<le> t"
  using assms by (simp add: algebra_simps)

lemma YearFromDay_bounds:
  "DayFromYear (YearFromDay t) \<le> t \<and> t < DayFromYear (YearFromDay t + 1)"
proof -
  let ?y = "1970 + (400 * t) div 146097"
  note q = div_bounds [where k = 146097 and a = "400 * t", OF zero_less_numeral]
  have up: "t < DayFromYear (?y + 2)"
    by (rule year_estimate_upper [OF q(2) DayFromYear_lower])
  have lo: "DayFromYear (?y - 1) \<le> t"
    by (rule year_estimate_lower [OF q(1) DayFromYear_upper])
  show ?thesis
  proof (cases "DayFromYear (?y + 1) \<le> t")
    case True
    then have "YearFromDay t = ?y + 1" by (simp add: YearFromDay_def)
    moreover have "?y + 1 + 1 = ?y + 2" by simp
    ultimately show ?thesis using True up by simp
  next
    case False
    show ?thesis
    proof (cases "t < DayFromYear ?y")
      case True
      with False have "YearFromDay t = ?y - 1" by (simp add: YearFromDay_def)
      with True lo show ?thesis by simp
    next
      case nlt: False
      with False have "YearFromDay t = ?y" by (simp add: YearFromDay_def)
      with False nlt show ?thesis by simp
    qed
  qed
qed

lemma getFullYear_ge_100: "DayFromYear 100 \<le> t \<Longrightarrow> 100 \<le> getFullYear t"
proof (rule ccontr)
  assume t: "DayFromYear 100 \<le> t" and "\<not> 100 \<le> getFullYear t"
  then have "YearFromDay t + 1 \<le> 100" by (simp add: getFullYear_def)
  then have "DayFromYear (YearFromDay t + 1) \<le> DayFromYear 100" by (rule DayFromYear_mono)
  with YearFromDay_bounds [of t] t show False by linarith
qed

lemma new_Date_fields: "DayFromYear 100 \<le> t \<Longrightarrow> new_Date (getFullYear t) (getMonth t) (getDate t) = t"
  using getFullYear_ge_100 [of t] MakeDay_fields [of t 0] by (simp add: new_Date_def fullYear_def)

lemma setDate_add: "setDate t (getDate t + k) = t + k"
  by (simp add: setDate_def MakeDay_fields)

section \<open>Indexing dates\<close>

lemma idxToDate_add: "idxToDate S idx = minDate S + idx"
  by (simp add: idxToDate_def setDate_add)

lemma getTime_diff_round:
  assumes "\<bar>hostOffset P a - hostOffset P b\<bar> < 43200000"
  shows "Math_round (of_int (getTime P b - getTime P a) / of_int MS) = b - a"
proof -
  let ?o = "hostOffset P a - hostOffset P b"
  have e: "2 * (getTime P b - getTime P a) + MS = (b - a) * (2 * MS) + (2 * ?o + MS)"
    by (simp add: getTime_def algebra_simps)
  have r: "0 \<le> 2 * ?o + MS" "2 * ?o + MS < 2 * MS"
    using assms by (simp_all add: MS_def)
  have d: "(2 * (getTime P b - getTime P a) + MS) div (2 * MS) = b - a"
    unfolding e using r by (simp add: MS_def)
  have "1 \<le> MS" by (simp add: MS_def)
  then have "Math_round (of_int (getTime P b - getTime P a) / of_int MS)
      = (2 * (getTime P b - getTime P a) + MS) div (2 * MS)"
    by (rule Math_round_div)
  with d show ?thesis by (simp only:)
qed

lemma daysBetween_diff:
  assumes "\<bar>hostOffset P a - hostOffset P b\<bar> < 43200000"
    and "DayFromYear 100 \<le> a" and "DayFromYear 100 \<le> b"
  shows "daysBetween P a b = b - a"
  unfolding daysBetween_def Let_def new_Date_fields [OF assms(2)] new_Date_fields [OF assms(3)]
  by (rule getTime_diff_round [OF assms(1)])


lemma getTime_le_imp_le:
  assumes "\<bar>hostOffset P a - hostOffset P b\<bar> < 43200000" and "getTime P a \<le> getTime P b"
  shows "a \<le> b"
proof (rule ccontr)
  assume "\<not> a \<le> b"
  then have "b + 1 \<le> a" by simp
  then have "(b + 1) * MS \<le> a * MS" by (simp add: MS_def)
  with assms show False by (simp add: getTime_def MS_def algebra_simps)
qed

lemma coerce_0100_01_00: "coerceDateOnly (Str ''0100-01-00'') = Some (- 683004)"
  by code_simp

lemma coerce_0100_01_01: "coerceDateOnly (Str ''0100-01-01'') = Some (- 683003)"
  by code_simp

lemma year_of_0099_12_31: "getFullYear (- 683004) = 99"
  by code_simp

lemma daysBetween_utc_first_century: "daysBetween utc_host (- 683004) (- 683003) = - 693959"
  by code_simp

lemma getTime_utc: "getTime utc_host t = t * 86400000"
  by (simp add: getTime_def utc_host_def MS_def)

lemma date_index_round_trip_from_year_100:
  assumes "DayFromYear 100 \<le> minDate S" and "minDate S \<le> d"
    and "\<bar>hostOffset P (minDate S) - hostOffset P d\<bar> < 43200000"
  shows "daysBetween P (minDate S) d = d - minDate S"
    and "idxToDate S (dateToIdx P S d) = d"
    and "dateToIdx P S (idxToDate S (d - minDate S)) = d - minDate S"
proof -
  show db: "daysBetween P (minDate S) d = d - minDate S"
    using assms by (intro daysBetween_diff) simp_all
  then show "idxToDate S (dateToIdx P S d) = d"
    by (simp add: dateToIdx_def idxToDate_add)
  from db show "dateToIdx P S (idxToDate S (d - minDate S)) = d - minDate S"
    by (simp add: dateToIdx_def idxToDate_add)
qed

text \<open>
  C6. Indexing dates is meant to round-trip and \<open>dateMax = daysBetween(minDate, maxDate)\<close>
  to be at least 0 for \<open>minDate \<le> maxDate\<close>. \<open>#daysBetween\<close> rebuilds both dates with
  \<open>new Date(y, m, d)\<close>, which reads a year from 0 to 99 as 1900 + y, where
  \<open>#idxToDate\<close> copies the date and moves it with \<open>setDate\<close>. The attribute
  \<open>min-date="0100-01-00"\<close> has the shape that \<open>#coerceDateOnly\<close> accepts and gives the
  date 0099-12-31; with \<open>max-date="0100-01-01"\<close>, the day after, \<open>#daysBetween\<close>
  measures from 1999-12-31 and returns -693959: \<open>dateMax\<close> is negative, and the index
  of 0100-01-01 leads to a date 1376963 days before 1970 instead of back to it.
\<close>

theorem daysBetween_first_century:
  "coerceDateOnly (Str ''0100-01-00'') = Some (- 683004) \<and>
   coerceDateOnly (Str ''0100-01-01'') = Some (- 683003) \<and>
   getFullYear (- 683004) = 99 \<and>
   daysBetween utc_host (- 683004) (- 683003) = - 693959 \<and>
   dateMax (initDateBounds utc_host (Str ''0100-01-00'') (Str ''0100-01-01'') state0) = - 693959 \<and>
   idxToDate (state0\<lparr>minDate := - 683004\<rparr>)
     (dateToIdx utc_host (state0\<lparr>minDate := - 683004\<rparr>) (- 683003)) = - 1376963"
proof -
  have b: "dateMax (initDateBounds utc_host (Str ''0100-01-00'') (Str ''0100-01-01'') state0)
      = - 693959"
    by (simp add: initDateBounds_def Let_def coerce_0100_01_00 coerce_0100_01_01 getTime_utc
          daysBetween_utc_first_century del: coerceDateOnly.simps)
  have r: "idxToDate (state0\<lparr>minDate := - 683004\<rparr>)
     (dateToIdx utc_host (state0\<lparr>minDate := - 683004\<rparr>) (- 683003)) = - 1376963"
    by (simp add: idxToDate_add dateToIdx_def daysBetween_utc_first_century)
  from coerce_0100_01_00 coerce_0100_01_01 year_of_0099_12_31 daysBetween_utc_first_century b r
  show ?thesis by (simp only: simp_thms)
qed

section \<open>The default bounds\<close>

lemma setDate_sub: "setDate t (getDate t - k) = t - k"
  using setDate_add [of t "- k"] by simp

lemma initDateBounds_fallback:
  assumes "coerceDateOnly attrMin = None \<or> coerceDateOnly attrMax = None \<or>
           (\<exists>a b. coerceDateOnly attrMin = Some a \<and> coerceDateOnly attrMax = Some b \<and>
                  getTime P a > getTime P b)"
  shows "initDateBounds P attrMin attrMax S =
           S\<lparr>minDate := todayLocal P - 30, maxDate := todayLocal P, dateMin := 0,
             dateMax := daysBetween P (todayLocal P - 30) (todayLocal P)\<rparr>"
  using assms
  by (auto simp: initDateBounds_def Let_def setDate_sub split: option.splits)

lemma todayLocal_now: "DayFromYear 100 \<le> nowDay P \<Longrightarrow> todayLocal P = nowDay P"
  by (simp add: todayLocal_def new_Date_fields)

text \<open>
  C7. When \<open>min-date\<close> or \<open>max-date\<close> is absent or does not have the shape
  \<open>YYYY-MM-DD\<close>, or when the minimum is later than the maximum, \<open>#initDateBounds\<close>
  takes \<open>maxDate\<close> = today and \<open>minDate\<close> = today - 30 days, sets \<open>dateMin = 0\<close> and
  \<open>dateMax = daysBetween(minDate, maxDate)\<close>. It has no branch that throws: the model
  is a total function into states. Today is the local day of the clock from the year 100
  on, and \<open>dateMax\<close> is 30 when the offsets of the host at the two midnights differ by
  less than twelve hours.
\<close>

theorem initDateBounds_defaults:
  fixes P :: platform and S :: state and attrMin attrMax :: jsvalue
  assumes "coerceDateOnly attrMin = None \<or> coerceDateOnly attrMax = None \<or>
           (\<exists>a b. coerceDateOnly attrMin = Some a \<and> coerceDateOnly attrMax = Some b \<and>
                  getTime P a > getTime P b)"
  defines "S' \<equiv> initDateBounds P attrMin attrMax S"
  shows "maxDate S' = todayLocal P \<and> minDate S' = todayLocal P - 30 \<and>
         dateMin S' = 0 \<and> dateMax S' = daysBetween P (minDate S') (maxDate S') \<and>
         (DayFromYear 100 \<le> nowDay P \<longrightarrow> maxDate S' = nowDay P \<and> minDate S' = nowDay P - 30) \<and>
         (DayFromYear 100 \<le> nowDay P - 30 \<and>
          \<bar>hostOffset P (nowDay P - 30) - hostOffset P (nowDay P)\<bar> < 43200000 \<longrightarrow>
            dateMax S' = 30)"
proof -
  have S': "S' = S\<lparr>minDate := todayLocal P - 30, maxDate := todayLocal P, dateMin := 0,
             dateMax := daysBetween P (todayLocal P - 30) (todayLocal P)\<rparr>"
    unfolding S'_def by (rule initDateBounds_fallback [OF assms(1)])
  have base: "maxDate S' = todayLocal P" "minDate S' = todayLocal P - 30" "dateMin S' = 0"
      "dateMax S' = daysBetween P (minDate S') (maxDate S')"
    by (simp_all add: S')
  have now: "DayFromYear 100 \<le> nowDay P \<longrightarrow> maxDate S' = nowDay P \<and> minDate S' = nowDay P - 30"
    by (simp add: base todayLocal_now)
  have thirty: "DayFromYear 100 \<le> nowDay P - 30 \<and>
          \<bar>hostOffset P (nowDay P - 30) - hostOffset P (nowDay P)\<bar> < 43200000 \<longrightarrow>
            dateMax S' = 30"
  proof
    assume h: "DayFromYear 100 \<le> nowDay P - 30 \<and>
          \<bar>hostOffset P (nowDay P - 30) - hostOffset P (nowDay P)\<bar> < 43200000"
    then have n: "DayFromYear 100 \<le> nowDay P" by simp
    then have t: "todayLocal P = nowDay P" by (rule todayLocal_now)
    from h n have "daysBetween P (nowDay P - 30) (nowDay P) = nowDay P - (nowDay P - 30)"
      by (intro daysBetween_diff) simp_all
    then show "dateMax S' = 30" by (simp add: base t)
  qed
  from base now thirty show ?thesis by blast
qed

lemma coerce_Null: "coerceDateOnly Null = None"
  by simp

lemma coerce_unparseable: "coerceDateOnly (Str ''2026-2-1'') = None"
  by code_simp

lemma coerce_2026_12_31: "coerceDateOnly (Str ''2026-12-31'') = Some 20818"
  by code_simp

lemma coerce_2026_01_01: "coerceDateOnly (Str ''2026-01-01'') = Some 20454"
  by code_simp

lemma today_utc_host: "nowDay utc_host = 20511"
  by (simp add: utc_host_def)

theorem initDateBounds_defaults_witness:
  "minDate (initDateBounds utc_host (Str ''2026-12-31'') (Str ''2026-01-01'') state0) = 20481 \<and>
   maxDate (initDateBounds utc_host (Str ''2026-12-31'') (Str ''2026-01-01'') state0) = 20511 \<and>
   dateMax (initDateBounds utc_host (Str ''2026-12-31'') (Str ''2026-01-01'') state0) = 30 \<and>
   minDate (initDateBounds utc_host Null Null state0) = 20481 \<and>
   minDate (initDateBounds utc_host (Str ''2026-2-1'') (Str ''2026-12-31'') state0) = 20481"
proof -
  have swapped: "coerceDateOnly (Str ''2026-12-31'') = None \<or>
      coerceDateOnly (Str ''2026-01-01'') = None \<or>
      (\<exists>a b. coerceDateOnly (Str ''2026-12-31'') = Some a \<and>
             coerceDateOnly (Str ''2026-01-01'') = Some b \<and>
             getTime utc_host a > getTime utc_host b)"
    unfolding coerce_2026_12_31 coerce_2026_01_01 by (simp add: getTime_utc)
  have absent: "coerceDateOnly Null = None \<or> coerceDateOnly Null = None \<or>
      (\<exists>a b. coerceDateOnly Null = Some a \<and> coerceDateOnly Null = Some b \<and>
             getTime utc_host a > getTime utc_host b)"
    by simp
  have bad: "coerceDateOnly (Str ''2026-2-1'') = None \<or>
      coerceDateOnly (Str ''2026-12-31'') = None \<or>
      (\<exists>a b. coerceDateOnly (Str ''2026-2-1'') = Some a \<and>
             coerceDateOnly (Str ''2026-12-31'') = Some b \<and>
             getTime utc_host a > getTime utc_host b)"
    unfolding coerce_unparseable by simp
  have y: "DayFromYear 100 \<le> 20481"
    by code_simp
  have off: "hostOffset utc_host t = 0" for t
    by (simp add: utc_host_def)
  have n: "DayFromYear 100 \<le> nowDay utc_host" "DayFromYear 100 \<le> nowDay utc_host - 30"
    "\<bar>hostOffset utc_host (nowDay utc_host - 30) - hostOffset utc_host (nowDay utc_host)\<bar>
       < 43200000"
    using y by (simp_all add: today_utc_host off)
  have A: "minDate (initDateBounds utc_host (Str ''2026-12-31'') (Str ''2026-01-01'') state0)
             = nowDay utc_host - 30"
      "maxDate (initDateBounds utc_host (Str ''2026-12-31'') (Str ''2026-01-01'') state0)
             = nowDay utc_host"
      "dateMax (initDateBounds utc_host (Str ''2026-12-31'') (Str ''2026-01-01'') state0) = 30"
    using initDateBounds_defaults [OF swapped, of state0] n by blast+
  have B: "minDate (initDateBounds utc_host Null Null state0) = nowDay utc_host - 30"
    using initDateBounds_defaults [OF absent, of state0] n by blast
  have C: "minDate (initDateBounds utc_host (Str ''2026-2-1'') (Str ''2026-12-31'') state0)
             = nowDay utc_host - 30"
    using initDateBounds_defaults [OF bad, of state0] n by blast
  show ?thesis
    unfolding A B C by (simp add: today_utc_host)
qed

section \<open>The scenario in the zone UTC\<close>

lemma exact_ops_exact: "exact_on_integers exact_ops"
  by (simp add: exact_on_integers_def exact_ops_def)

lemma minToHMS_eq: "minToHMS m = (Math_floor (of_int m / 60), js_rem m 60, 0)"
  by (simp add: minToHMS_def)

lemma emit_eq:
  "emit F P S =
     (case iso_at F P (timeZone S) (minDate S + dateStart S) (timeStart S) of
        Inl e \<Rightarrow> Inl e
      | Inr a \<Rightarrow>
          (case iso_at F P (timeZone S)
                  (minDate S + dateEnd S + (if timeEnd S < timeStart S then 1 else 0))
                  (timeEnd S) of
             Inl e \<Rightarrow> Inl e
           | Inr b \<Rightarrow>
               Inr \<lparr>ev_dateStart = fmtDateISO (minDate S + dateStart S),
                    ev_dateEnd = fmtDateISO (minDate S + dateEnd S),
                    ev_timeStart = padStart 2 CHR ''0'' (String_int (fst (minToHMS (timeStart S))))
                       @ '':'' @ padStart 2 CHR ''0'' (String_int (fst (snd (minToHMS (timeStart S)))))
                       @ '':'' @ padStart 2 CHR ''0'' (String_int (snd (snd (minToHMS (timeStart S))))),
                    ev_timeEnd = padStart 2 CHR ''0'' (String_int (fst (minToHMS (timeEnd S))))
                       @ '':'' @ padStart 2 CHR ''0'' (String_int (fst (snd (minToHMS (timeEnd S)))))
                       @ '':'' @ padStart 2 CHR ''0'' (String_int (snd (snd (minToHMS (timeEnd S))))),
                    ev_timeZone = timeZone S,
                    ev_crossesMidnight = (timeEnd S < timeStart S),
                    ev_timeStartMinutes = timeStart S, ev_timeEndMinutes = timeEnd S,
                    rangeStartDateTimeISO = a, rangeEndDateTimeISO = b\<rparr>))"
proof (cases "timeEnd S < timeStart S")
  case True
  then show ?thesis
    unfolding emit_def Let_def iso_at_def idxToDate_add setDate_add minToHMS_eq
    by (simp only: prod.case if_True fst_conv snd_conv)
next
  case False
  then show ?thesis
    unfolding emit_def Let_def iso_at_def idxToDate_add setDate_add minToHMS_eq
    by (simp only: prod.case if_False fst_conv snd_conv add_0_right)
qed

lemma exact_fsub: "exact_on_integers F \<Longrightarrow> small_integer (x - y) \<Longrightarrow> fsub F x y = x - y"
  and exact_fadd: "exact_on_integers F \<Longrightarrow> small_integer (x + y) \<Longrightarrow> fadd F x y = x + y"
  and exact_fmul: "exact_on_integers F \<Longrightarrow> small_integer (x * y) \<Longrightarrow> fmul F x y = x * y"
  and exact_fdiv: "exact_on_integers F \<Longrightarrow> small_integer (x / y) \<Longrightarrow> fdiv F x y = x / y"
  unfolding exact_on_integers_def by blast+

lemma small_integer_numeral: "small_integer 0" "small_integer 1769983200000"
  "small_integer 1772344800000"
  by (simp_all add: small_integer_def)

lemma fields_2026: "getFullYear 20485 = 2026" "getMonth 20485 = 1" "getDate 20485 = 1"
  "getFullYear 20512 = 2026" "getMonth 20512 = 1" "getDate 20512 = 28"
  "getFullYear 20513 = 2026" "getMonth 20513 = 2" "getDate 20513 = 1"
  by code_simp+

lemma minToHMS_scenario: "minToHMS 1320 = (22, 0, 0)" "minToHMS 360 = (6, 0, 0)"
  by (simp_all add: minToHMS_def Math_floor_def js_rem_def)

lemma Date_UTC_scenario:
  "Date_UTC 2026 1 1 22 0 0 = 1769983200000" "Date_UTC 2026 2 1 6 0 0 = 1772344800000"
  by code_simp+

lemma parts_scenario:
  "utc_formatToParts ''UTC'' 1769983200000 =
     Inr \<lparr>p_year = 2026, p_month = 2, p_day = 1, p_hour = 22, p_minute = 0, p_second = 0\<rparr>"
  "utc_formatToParts ''UTC'' 1772344800000 =
     Inr \<lparr>p_year = 2026, p_month = 3, p_day = 1, p_hour = 6, p_minute = 0, p_second = 0\<rparr>"
  by code_simp+

lemma pads:
  "padStart 4 CHR ''0'' (String_int 2026) = ''2026''"
  "padStart 2 CHR ''0'' (String_int 0) = ''00''"
  "padStart 2 CHR ''0'' (String_int 1) = ''01''"
  "padStart 2 CHR ''0'' (String_int 2) = ''02''"
  "padStart 2 CHR ''0'' (String_int 3) = ''03''"
  "padStart 2 CHR ''0'' (String_int 6) = ''06''"
  "padStart 2 CHR ''0'' (String_int 22) = ''22''"
  "padStart 2 CHR ''0'' (String_int 28) = ''28''"
  by code_simp+

lemma String_int_2026: "String_int 2026 = ''2026''"
  by code_simp

lemma formatToParts_utc_host: "formatToParts utc_host = utc_formatToParts"
  by (simp add: utc_host_def)

lemma Math_trunc_numeral: "Math_trunc (numeral n) = numeral n"
  by (simp add: Math_trunc_def)

lemma getOffsetMinutes_scenario:
  assumes "exact_on_integers F"
  shows "getOffsetMinutes F utc_host ''UTC'' 1769983200000 = Inr 0"
    and "getOffsetMinutes F utc_host ''UTC'' 1772344800000 = Inr 0"
proof -
  have z: "fsub F 1769983200000 1769983200000 = 0" "fsub F 1772344800000 1772344800000 = 0"
    using exact_fsub [OF assms, of 1769983200000 1769983200000]
      exact_fsub [OF assms, of 1772344800000 1772344800000]
    by (simp_all add: small_integer_numeral)
  have q: "fdiv F 0 60000 = 0"
    using exact_fdiv [OF assms, of 0 60000] by (simp add: small_integer_numeral)
  show "getOffsetMinutes F utc_host ''UTC'' 1769983200000 = Inr 0"
    by (simp add: getOffsetMinutes_def formatToParts_utc_host Math_trunc_numeral
          parts_scenario Date_UTC_scenario z q)
  show "getOffsetMinutes F utc_host ''UTC'' 1772344800000 = Inr 0"
    by (simp add: getOffsetMinutes_def formatToParts_utc_host Math_trunc_numeral
          parts_scenario Date_UTC_scenario z q)
qed

lemma offset_loop_converged:
  assumes "getOffsetMinutes F P tz epoch = Inr off"
  shows "offset_loop F P tz guess 4 off epoch = Inr epoch"
proof -
  have "offset_loop F P tz guess (Suc 3) off epoch = Inr epoch"
    by (simp only: offset_loop.simps assms sum.case simp_thms if_True)
  moreover have "(4::nat) = Suc 3" by simp
  ultimately show ?thesis by (simp only:)
qed

lemma localToEpoch_scenario:
  assumes "exact_on_integers F"
  shows "localToEpoch F utc_host ''UTC'' 2026 2 1 22 0 0 = Inr 1769983200000"
    and "localToEpoch F utc_host ''UTC'' 2026 3 1 6 0 0 = Inr 1772344800000"
proof -
  have m: "fmul F 0 60000 = 0"
    using exact_fmul [OF assms, of 0 60000] by (simp add: small_integer_numeral)
  have s: "fsub F 1769983200000 0 = 1769983200000" "fsub F 1772344800000 0 = 1772344800000"
    using exact_fsub [OF assms, of 1769983200000 0] exact_fsub [OF assms, of 1772344800000 0]
    by (simp_all add: small_integer_numeral)
  show "localToEpoch F utc_host ''UTC'' 2026 2 1 22 0 0 = Inr 1769983200000"
    by (simp add: localToEpoch_def Let_def Date_UTC_scenario getOffsetMinutes_scenario [OF assms]
          m s offset_loop_converged formatToParts_utc_host Math_trunc_numeral parts_scenario)
  show "localToEpoch F utc_host ''UTC'' 2026 3 1 6 0 0 = Inr 1772344800000"
    by (simp add: localToEpoch_def Let_def Date_UTC_scenario getOffsetMinutes_scenario [OF assms]
          m s offset_loop_converged formatToParts_utc_host Math_trunc_numeral parts_scenario)
qed

lemma String_num_zero: "String_num P 0 = String_int 0"
  by (simp add: String_num_def)

lemma toISOWithOffset_scenario:
  assumes "exact_on_integers F"
  shows "toISOWithOffset F utc_host ''UTC'' 2026 2 1 22 0 0 = Inr ''2026-02-01T22:00:00+00:00''"
    and "toISOWithOffset F utc_host ''UTC'' 2026 3 1 6 0 0 = Inr ''2026-03-01T06:00:00+00:00''"
proof -
  have q: "fdiv F 0 60 = 0"
    using exact_fdiv [OF assms, of 0 60] by (simp add: small_integer_numeral)
  have r: "js_rem_num 0 60 = 0"
    by (simp add: js_rem_num_def Math_trunc_def)
  have fl: "Math_floor 0 = 0" by (simp add: Math_floor_def)
  show "toISOWithOffset F utc_host ''UTC'' 2026 2 1 22 0 0 = Inr ''2026-02-01T22:00:00+00:00''"
    by (simp add: toISOWithOffset_def Let_def localToEpoch_scenario [OF assms]
          getOffsetMinutes_scenario [OF assms] q r fl String_num_zero pads)
  show "toISOWithOffset F utc_host ''UTC'' 2026 3 1 6 0 0 = Inr ''2026-03-01T06:00:00+00:00''"
    by (simp add: toISOWithOffset_def Let_def localToEpoch_scenario [OF assms]
          getOffsetMinutes_scenario [OF assms] q r fl String_num_zero pads)
qed

lemma scenario_fields:
  "minDate scenario = 20454" "dateStart scenario = 31" "dateEnd scenario = 58"
  "timeStart scenario = 1320" "timeEnd scenario = 360" "timeZone scenario = ''UTC''"
  by code_simp+

lemma fmtDateISO_scenario:
  "fmtDateISO 20485 = ''2026-02-01''" "fmtDateISO 20512 = ''2026-02-28''"
  by code_simp+

lemma iso_at_scenario:
  assumes "exact_on_integers F"
  shows "iso_at F utc_host ''UTC'' 20485 1320 = Inr ''2026-02-01T22:00:00+00:00''"
    and "iso_at F utc_host ''UTC'' 20513 360 = Inr ''2026-03-01T06:00:00+00:00''"
  by (simp_all add: iso_at_def minToHMS_scenario fields_2026 toISOWithOffset_scenario [OF assms])

lemma emit_scenario:
  assumes "exact_on_integers F"
  shows "emit F utc_host scenario =
     Inr \<lparr>ev_dateStart = ''2026-02-01'', ev_dateEnd = ''2026-02-28'',
          ev_timeStart = ''22:00:00'', ev_timeEnd = ''06:00:00'',
          ev_timeZone = ''UTC'', ev_crossesMidnight = True,
          ev_timeStartMinutes = 1320, ev_timeEndMinutes = 360,
          rangeStartDateTimeISO = ''2026-02-01T22:00:00+00:00'',
          rangeEndDateTimeISO = ''2026-03-01T06:00:00+00:00''\<rparr>"
  unfolding emit_eq scenario_fields
  by (simp add: iso_at_scenario [OF assms] fmtDateISO_scenario minToHMS_scenario pads)

section \<open>The payload of the event\<close>

lemma getOffsetMinutes_returns:
  assumes "\<forall>ms. \<exists>p. formatToParts P tz ms = Inr p"
  shows "\<exists>off. getOffsetMinutes F P tz x = Inr off"
proof -
  from assms obtain p where "formatToParts P tz (Math_trunc x) = Inr p" by blast
  then show ?thesis by (simp add: getOffsetMinutes_def Let_def)
qed

lemma offset_loop_returns:
  assumes "\<forall>ms. \<exists>p. formatToParts P tz ms = Inr p"
  shows "\<exists>r. offset_loop F P tz guess n off epoch = Inr r"
proof (induction n arbitrary: off epoch)
  case 0
  show ?case by simp
next
  case (Suc n)
  from getOffsetMinutes_returns [OF assms]
  obtain noff where "getOffsetMinutes F P tz epoch = Inr noff" by blast
  with Suc show ?case by simp
qed

lemma localToEpoch_returns:
  assumes "\<forall>ms. \<exists>p. formatToParts P tz ms = Inr p"
  shows "\<exists>r. localToEpoch F P tz y M d h m s = Inr r"
proof -
  define guess where "guess = Date_UTC y (M - 1) d h m s"
  from getOffsetMinutes_returns [OF assms]
  obtain off where off: "getOffsetMinutes F P tz (of_int guess) = Inr off" by blast
  from offset_loop_returns [OF assms]
  obtain epoch where
    epoch: "offset_loop F P tz guess 4 off (fsub F (of_int guess) (fmul F off 60000)) = Inr epoch"
    by blast
  from assms obtain p where p: "formatToParts P tz (Math_trunc epoch) = Inr p" by blast
  show ?thesis
    unfolding localToEpoch_def Let_def guess_def [symmetric]
    by (simp only: off epoch p sum.case) blast
qed

lemma toISOWithOffset_returns:
  assumes "\<forall>ms. \<exists>p. formatToParts P tz ms = Inr p"
  shows "\<exists>r. toISOWithOffset F P tz y M d h m s = Inr r"
proof -
  from localToEpoch_returns [OF assms]
  obtain epoch where epoch: "localToEpoch F P tz y M d h m s = Inr epoch" by blast
  from getOffsetMinutes_returns [OF assms]
  obtain off where off: "getOffsetMinutes F P tz epoch = Inr off" by blast
  show ?thesis
    unfolding toISOWithOffset_def Let_def
    by (simp only: epoch off sum.case) blast
qed

lemma iso_at_returns:
  assumes "\<forall>ms. \<exists>p. formatToParts P tz ms = Inr p"
  shows "\<exists>r. iso_at F P tz day minutes = Inr r"
  unfolding iso_at_def minToHMS_eq
  by (simp only: prod.case toISOWithOffset_returns [OF assms])

text \<open>
  C4. The payload that \<open>#emit\<close> builds has \<open>crossesMidnight = (timeEnd < timeStart)\<close>;
  its start timestamp is \<open>#toISOWithOffset\<close> of the start date at the start time and
  its end timestamp is \<open>#toISOWithOffset\<close> of the end date, one day later when the
  selection crosses midnight, at the end time. \<open>#emit\<close> returns a payload whenever the
  formatter of the platform knows the zone of the state. In the zone UTC, with the
  selection 2026-02-01 to 2026-02-28 and 22:00 to 06:00, the payload crosses midnight,
  starts at \<open>2026-02-01T22:00:00+00:00\<close> and ends at \<open>2026-03-01T06:00:00+00:00\<close>,
  for every double-precision arithmetic that does not round small integers.
\<close>

theorem emit_payload:
  fixes F :: float_ops and P :: platform and S :: state
  defines "crosses \<equiv> timeEnd S < timeStart S"
  defines "startDay \<equiv> idxToDate S (dateStart S)"
  defines "endDay \<equiv> idxToDate S (dateEnd S) + (if crosses then 1 else 0)"
  shows "(\<forall>p. emit F P S = Inr p \<longrightarrow>
            ev_crossesMidnight p = crosses \<and>
            iso_at F P (timeZone S) startDay (timeStart S) = Inr (rangeStartDateTimeISO p) \<and>
            iso_at F P (timeZone S) endDay (timeEnd S) = Inr (rangeEndDateTimeISO p)) \<and>
         ((\<forall>ms. \<exists>p. formatToParts P (timeZone S) ms = Inr p) \<longrightarrow>
            (\<exists>p. emit F P S = Inr p)) \<and>
         startDay = minDate S + dateStart S \<and>
         idxToDate S (dateEnd S) = minDate S + dateEnd S \<and>
         (exact_on_integers F \<longrightarrow>
            emit F utc_host scenario =
              Inr \<lparr>ev_dateStart = ''2026-02-01'', ev_dateEnd = ''2026-02-28'',
                   ev_timeStart = ''22:00:00'', ev_timeEnd = ''06:00:00'',
                   ev_timeZone = ''UTC'', ev_crossesMidnight = True,
                   ev_timeStartMinutes = 1320, ev_timeEndMinutes = 360,
                   rangeStartDateTimeISO = ''2026-02-01T22:00:00+00:00'',
                   rangeEndDateTimeISO = ''2026-03-01T06:00:00+00:00''\<rparr>)"
proof -
  have right: "\<forall>p. emit F P S = Inr p \<longrightarrow>
            ev_crossesMidnight p = crosses \<and>
            iso_at F P (timeZone S) startDay (timeStart S) = Inr (rangeStartDateTimeISO p) \<and>
            iso_at F P (timeZone S) endDay (timeEnd S) = Inr (rangeEndDateTimeISO p)"
    unfolding emit_eq crosses_def startDay_def endDay_def idxToDate_add
    by (auto split: sum.splits)
  have returns: "(\<forall>ms. \<exists>p. formatToParts P (timeZone S) ms = Inr p) \<longrightarrow>
            (\<exists>p. emit F P S = Inr p)"
  proof
    assume ok: "\<forall>ms. \<exists>p. formatToParts P (timeZone S) ms = Inr p"
    from iso_at_returns [OF ok]
    obtain a where a: "iso_at F P (timeZone S) (minDate S + dateStart S) (timeStart S) = Inr a"
      by blast
    from iso_at_returns [OF ok]
    obtain b where b: "iso_at F P (timeZone S)
        (minDate S + dateEnd S + (if timeEnd S < timeStart S then 1 else 0)) (timeEnd S) = Inr b"
      by blast
    show "\<exists>p. emit F P S = Inr p"
      unfolding emit_eq by (simp only: a b sum.case) blast
  qed
  have days: "startDay = minDate S + dateStart S"
      "idxToDate S (dateEnd S) = minDate S + dateEnd S"
    by (simp_all add: startDay_def idxToDate_add)
  from right returns days emit_scenario show ?thesis by blast
qed

theorem emit_payload_witness:
  "emit exact_ops utc_host scenario =
     Inr \<lparr>ev_dateStart = ''2026-02-01'', ev_dateEnd = ''2026-02-28'',
          ev_timeStart = ''22:00:00'', ev_timeEnd = ''06:00:00'',
          ev_timeZone = ''UTC'', ev_crossesMidnight = True,
          ev_timeStartMinutes = 1320, ev_timeEndMinutes = 360,
          rangeStartDateTimeISO = ''2026-02-01T22:00:00+00:00'',
          rangeEndDateTimeISO = ''2026-03-01T06:00:00+00:00''\<rparr>"
  using emit_payload [of exact_ops utc_host scenario] exact_ops_exact by blast

section \<open>Setting the time zone\<close>

lemma toISOWithOffset_rejected:
  assumes "\<forall>ms. formatToParts P tz ms = Inl e"
  shows "toISOWithOffset F P tz y M d h m s = Inl e"
  using assms by (simp add: toISOWithOffset_def localToEpoch_def getOffsetMinutes_def Let_def)

lemma renderTZ_rejected:
  assumes "\<forall>ms. formatToParts P (timeZone S) ms = Inl e"
  shows "renderTZ F P S = Inl e"
  unfolding renderTZ_def Let_def minToHMS_eq
  by (simp add: toISOWithOffset_rejected [OF assms])

lemma set_timeZone_event:
  assumes "z \<noteq> []" and "snd (set_timeZone F P z S) = Some (Inr p)"
  shows "emit F P (S\<lparr>timeZone := z\<rparr>) = Inr p"
  using assms by (simp add: set_timeZone_def Let_def split: sum.splits)

text \<open>
  C9, as the specification has it: the setter of \<open>timeZone\<close> stores every string. The
  setter tests \<open>if (v)\<close> first, so the empty string is not stored: the state keeps the
  zone it had and no event goes out.
\<close>

theorem set_timeZone_empty_counterexample:
  "timeZone (fst (set_timeZone exact_ops utc_host [] scenario)) = ''UTC'' \<and>
   timeZone (fst (set_timeZone exact_ops utc_host [] scenario)) \<noteq> [] \<and>
   snd (set_timeZone exact_ops utc_host [] scenario) = None"
  by (simp add: set_timeZone_def scenario_def)

text \<open>
  C9, amended. The setter of \<open>timeZone\<close> stores every string that is not empty, with
  no validation, and ignores the empty string. The payload of the event that follows
  carries the stored zone, and both its timestamps are computed in that zone. A zone that
  the formatter of the platform rejects is stored all the same, and the \<open>RangeError\<close> of
  the formatter leaves the setter after the state has changed.
\<close>

theorem set_timeZone_stores:
  fixes F :: float_ops and P :: platform and S :: state and z :: string
  defines "crosses \<equiv> timeEnd S < timeStart S"
  shows "(z \<noteq> [] \<longrightarrow> fst (set_timeZone F P z S) = S\<lparr>timeZone := z\<rparr>) \<and>
         set_timeZone F P [] S = (S, None) \<and>
         (z \<noteq> [] \<longrightarrow>
            (\<forall>p. snd (set_timeZone F P z S) = Some (Inr p) \<longrightarrow>
               ev_timeZone p = z \<and>
               iso_at F P z (minDate S + dateStart S) (timeStart S)
                 = Inr (rangeStartDateTimeISO p) \<and>
               iso_at F P z (minDate S + dateEnd S + (if crosses then 1 else 0)) (timeEnd S)
                 = Inr (rangeEndDateTimeISO p))) \<and>
         (z \<noteq> [] \<and> (\<forall>ms. formatToParts P z ms = Inl RangeError) \<longrightarrow>
            timeZone (fst (set_timeZone F P z S)) = z \<and>
            snd (set_timeZone F P z S) = Some (Inl RangeError))"
proof -
  have stored: "z \<noteq> [] \<longrightarrow> fst (set_timeZone F P z S) = S\<lparr>timeZone := z\<rparr>"
    by (simp add: set_timeZone_def Let_def)
  have ignored: "set_timeZone F P [] S = (S, None)"
    by (simp add: set_timeZone_def)
  have used: "z \<noteq> [] \<longrightarrow>
            (\<forall>p. snd (set_timeZone F P z S) = Some (Inr p) \<longrightarrow>
               ev_timeZone p = z \<and>
               iso_at F P z (minDate S + dateStart S) (timeStart S)
                 = Inr (rangeStartDateTimeISO p) \<and>
               iso_at F P z (minDate S + dateEnd S + (if crosses then 1 else 0)) (timeEnd S)
                 = Inr (rangeEndDateTimeISO p))"
  proof (intro impI allI)
    fix p
    assume z: "z \<noteq> []" and e: "snd (set_timeZone F P z S) = Some (Inr p)"
    from set_timeZone_event [OF z e]
    show "ev_timeZone p = z \<and>
               iso_at F P z (minDate S + dateStart S) (timeStart S)
                 = Inr (rangeStartDateTimeISO p) \<and>
               iso_at F P z (minDate S + dateEnd S + (if crosses then 1 else 0)) (timeEnd S)
                 = Inr (rangeEndDateTimeISO p)"
      unfolding emit_eq crosses_def by (auto split: sum.splits)
  qed
  have rejected: "z \<noteq> [] \<and> (\<forall>ms. formatToParts P z ms = Inl RangeError) \<longrightarrow>
            timeZone (fst (set_timeZone F P z S)) = z \<and>
            snd (set_timeZone F P z S) = Some (Inl RangeError)"
  proof
    assume h: "z \<noteq> [] \<and> (\<forall>ms. formatToParts P z ms = Inl RangeError)"
    then have "\<forall>ms. formatToParts P (timeZone (S\<lparr>timeZone := z\<rparr>)) ms = Inl RangeError"
      by simp
    then have "renderTZ F P (S\<lparr>timeZone := z\<rparr>) = Inl RangeError"
      by (rule renderTZ_rejected)
    with h show "timeZone (fst (set_timeZone F P z S)) = z \<and>
            snd (set_timeZone F P z S) = Some (Inl RangeError)"
      by (simp add: set_timeZone_def Let_def)
  qed
  from stored ignored used rejected show ?thesis by blast
qed

lemma scenario_rezoned:
  "scenario\<lparr>timeZone := ''Mars/Phobos''\<rparr>\<lparr>timeZone := ''UTC''\<rparr> = scenario"
  by (simp add: scenario_def)

lemma renderTZ_scenario: "renderTZ exact_ops utc_host scenario = Inr ''UTC offset: +00:00''"
  unfolding renderTZ_def Let_def idxToDate_add scenario_fields minToHMS_scenario
  by (simp add: fields_2026 toISOWithOffset_scenario [OF exact_ops_exact])

lemma set_timeZone_scenario:
  "set_timeZone exact_ops utc_host ''UTC'' (scenario\<lparr>timeZone := ''Mars/Phobos''\<rparr>) =
     (scenario,
      Some (Inr \<lparr>ev_dateStart = ''2026-02-01'', ev_dateEnd = ''2026-02-28'',
                 ev_timeStart = ''22:00:00'', ev_timeEnd = ''06:00:00'',
                 ev_timeZone = ''UTC'', ev_crossesMidnight = True,
                 ev_timeStartMinutes = 1320, ev_timeEndMinutes = 360,
                 rangeStartDateTimeISO = ''2026-02-01T22:00:00+00:00'',
                 rangeEndDateTimeISO = ''2026-03-01T06:00:00+00:00''\<rparr>))"
  unfolding set_timeZone_def Let_def scenario_rezoned
  by (simp add: renderTZ_scenario emit_scenario [OF exact_ops_exact])

theorem set_timeZone_stores_witness:
  "timeZone (fst (set_timeZone exact_ops utc_host ''Mars/Phobos'' scenario)) = ''Mars/Phobos'' \<and>
   snd (set_timeZone exact_ops utc_host ''Mars/Phobos'' scenario) = Some (Inl RangeError) \<and>
   fst (set_timeZone exact_ops utc_host ''UTC'' (scenario\<lparr>timeZone := ''Mars/Phobos''\<rparr>))
     = scenario \<and>
   iso_at exact_ops utc_host ''UTC'' 20485 1320 = Inr ''2026-02-01T22:00:00+00:00'' \<and>
   iso_at exact_ops utc_host ''UTC'' 20513 360 = Inr ''2026-03-01T06:00:00+00:00''"
proof -
  have r: "\<forall>ms. formatToParts utc_host ''Mars/Phobos'' ms = Inl RangeError"
    by (simp add: utc_host_def utc_formatToParts_def)
  have z: "''Mars/Phobos'' \<noteq> []" by simp
  from set_timeZone_stores [of "''Mars/Phobos''" exact_ops utc_host scenario] r z
  have rejected:
    "timeZone (fst (set_timeZone exact_ops utc_host ''Mars/Phobos'' scenario)) = ''Mars/Phobos''"
    "snd (set_timeZone exact_ops utc_host ''Mars/Phobos'' scenario) = Some (Inl RangeError)"
    by blast+
  have u: "''UTC'' \<noteq> []" by simp
  from set_timeZone_stores
    [of "''UTC''" exact_ops utc_host "scenario\<lparr>timeZone := ''Mars/Phobos''\<rparr>"] u
  have accepted:
    "fst (set_timeZone exact_ops utc_host ''UTC'' (scenario\<lparr>timeZone := ''Mars/Phobos''\<rparr>))
       = scenario"
    "iso_at exact_ops utc_host ''UTC'' 20485 1320 = Inr ''2026-02-01T22:00:00+00:00''"
    "iso_at exact_ops utc_host ''UTC'' 20513 360 = Inr ''2026-03-01T06:00:00+00:00''"
    unfolding set_timeZone_scenario
    by (simp_all add: scenario_rezoned scenario_fields)
  from rejected accepted show ?thesis by simp
qed

end
